theory Spec2Isabelle
  imports Complex_Main "HOL-Library.Multiset" "HOL-Library.Product_Lexorder"
begin

section \<open>EDeN estimator: shuffling, subsampling, balancing and model selection\<close>

text \<open>
  A shallow embedding of \<^verbatim>\<open>src/eden/estimator.py\<close> (Python 2: \<^verbatim>\<open>zip\<close> returns a
  list, \<^verbatim>\<open>/\<close> on two ints is floor division, any two objects can be compared).

  \<^item> Graphs are values of a linearly ordered type \<open>'g\<close>: Python 2 orders arbitrary
    objects, which \<^verbatim>\<open>sorted(zip(preds, maj_graphs))\<close> relies on when two margins tie.
  \<^item> Labels are values of a type \<open>'c\<close>.
  \<^item> The margins and scores that the libraries return are idealised as \<open>real\<close>.
  \<^item> The numbers the sampler itself computes with, the counts and the ratio, are Python
    numbers: unbounded ints, and doubles with their rounding (see \<open>pynum\<close>).
  \<^item> Every exception of the source is a value \<open>Inl e\<close> of the result type.
  \<^item> The global generator of the \<^verbatim>\<open>random\<close> module is threaded through explicitly.
  \<^item> The decorator \<^verbatim>\<open>@timeit\<close> and the calls of the logger only report; they are left
    out.
\<close>

subsection \<open>Errors\<close>

datatype error = KeyError | ValueError | ZeroDivisionError | IndexError | OverflowError

subsection \<open>The random generator\<close>

text \<open>
  The state of the generator is the stream of the numbers it is going to produce.
  \<^verbatim>\<open>random.random()\<close> returns a float in \<open>[0, 1)\<close>; the model takes the fractional
  part of the next stream element, so that every value of \<open>[0, 1)\<close> can occur and no
  other, and advances the stream.
\<close>

type_synonym rng = "nat \<Rightarrow> real"

definition random :: "rng \<Rightarrow> real \<times> rng" where
  "random g = (frac (g 0), (\<lambda>n. g (Suc n)))"

text \<open>
  \<^verbatim>\<open>random.shuffle(x)\<close> of CPython 2.7:
  \<^verbatim>\<open>
  for i in reversed(xrange(1, len(x))):
      j = int(random() * (i+1))
      x[i], x[j] = x[j], x[i]
  \<close>
  \<open>shuffle_loop i\<close> runs the iterations \<open>i, i - 1, \<dots>, 1\<close>.
\<close>

fun shuffle_loop :: "nat \<Rightarrow> rng \<Rightarrow> 'a list \<Rightarrow> 'a list \<times> rng" where
  "shuffle_loop 0 g x = (x, g)"
| "shuffle_loop (Suc k) g x =
     (let (u, g') = random g;
          i = Suc k;
          j = nat \<lfloor>u * real (i + 1)\<rfloor>
      in shuffle_loop k g' (x[i := x ! j, j := x ! i]))"

definition shuffle :: "rng \<Rightarrow> 'a list \<Rightarrow> 'a list \<times> rng" where
  "shuffle g x = shuffle_loop (length x - 1) g x"

text \<open>\<^verbatim>\<open>[random.random() for i in range(n)]\<close>\<close>

fun randoms :: "nat \<Rightarrow> rng \<Rightarrow> real list \<times> rng" where
  "randoms 0 g = ([], g)"
| "randoms (Suc n) g =
     (let (u, g') = random g; (us, g'') = randoms n g' in (u # us, g''))"

text \<open>
  \<^verbatim>\<open>random.choice(seq)\<close> is \<^verbatim>\<open>seq[int(random() * len(seq))]\<close>; on an empty sequence
  the index is out of range.
\<close>

definition choice :: "rng \<Rightarrow> 'a list \<Rightarrow> error + ('a \<times> rng)" where
  "choice g seq =
     (let (u, g') = random g; j = nat \<lfloor>u * real (length seq)\<rfloor>
      in if j < length seq then Inr (seq ! j, g') else Inl IndexError)"

subsection \<open>paired_shuffle\<close>

text \<open>
  \<^verbatim>\<open>toolz.sandbox.core.unzip\<close> reads the first element of the sequence to learn how many
  iterators to build; on an empty sequence it returns the empty tuple. The caller
  unpacks the result into two names, \<^verbatim>\<open>i1, i2 = unzip(i1i2)\<close>, which raises
  \<^verbatim>\<open>ValueError\<close> when the tuple is empty: no inverse of \<^verbatim>\<open>zip\<close> can tell from an
  empty sequence that two sequences are wanted. \<open>unzip2\<close> is the call together with
  the unpacking.
\<close>

definition unzip2 :: "('a \<times> 'b) list \<Rightarrow> error + ('a list \<times> 'b list)" where
  "unzip2 ps = (if ps = [] then Inl ValueError else Inr (map fst ps, map snd ps))"

text \<open>
  \<^verbatim>\<open>
  def paired_shuffle(iterable1, iterable2):
      i1i2 = zip(iterable1, iterable2)
      random.shuffle(i1i2)
      i1, i2 = unzip(i1i2)
      return list(i1), list(i2)
  \<close>
\<close>

definition paired_shuffle ::
  "rng \<Rightarrow> 'a list \<Rightarrow> 'b list \<Rightarrow> error + (('a list \<times> 'b list) \<times> rng)" where
  "paired_shuffle g iterable1 iterable2 =
     (let i1i2 = zip iterable1 iterable2;
          (i1i2', g') = shuffle g i1i2
      in case unzip2 i1i2' of
           Inl e \<Rightarrow> Inl e
         | Inr (i1, i2) \<Rightarrow> Inr ((i1, i2), g'))"

subsection \<open>Python built-ins used by the sampler\<close>

text \<open>
  \<^verbatim>\<open>xs[:k]\<close>: a negative \<open>k\<close> counts from the end of the list.
\<close>

definition slice_to :: "int \<Rightarrow> 'a list \<Rightarrow> 'a list" where
  "slice_to k xs =
     (if 0 \<le> k then take (nat k) xs else take (length xs - nat (- k)) xs)"

text \<open>
  A Python number is an int or a float. \<open>PyInt n\<close> is the int \<open>n\<close>. \<open>PyFloat m e\<close> is the
  double nearest to \<open>m * 2 ^ e\<close>: the finite doubles are the pairs with \<open>\<bar>m\<bar> < 2 ^ 53\<close>,
  \<open>- 1074 \<le> e\<close> and a value below \<open>2 ^ 1024\<close>, a pair with a greater value is \<^verbatim>\<open>inf\<close>.
  So \<^verbatim>\<open>1e6\<close> is \<open>PyFloat 15625 6\<close>, \<^verbatim>\<open>0.5\<close> is \<open>PyFloat 1 (- 1)\<close> and \<^verbatim>\<open>1.0/3\<close> is
  \<open>PyFloat 6004799503160661 (- 54)\<close>. The float \<^verbatim>\<open>nan\<close> is not a value of the type.
\<close>

datatype pynum = PyInt int | PyFloat int int

text \<open>\<^verbatim>\<open>n.bit_length()\<close> of a natural number.\<close>

function bit_length :: "nat \<Rightarrow> nat" where
  "bit_length n = (if n = 0 then 0 else Suc (bit_length (n div 2)))"
  by pat_completeness auto
termination
  by (relation "measure (\<lambda>n. n)") auto

declare bit_length.simps [simp del]

text \<open>
  \<open>round_half_even m k\<close> is \<open>m / 2 ^ k\<close> rounded to the nearest integer, a tie to the even
  one. \<open>round_double m e\<close> is the double nearest to \<open>m * 2 ^ e\<close> (IEEE 754
  round-half-even to 53 bits, to fewer for a subnormal), or \<open>None\<close> when the rounded
  value is \<open>2 ^ 1024\<close> or more, beyond the greatest double.
\<close>

definition round_half_even :: "int \<Rightarrow> nat \<Rightarrow> int" where
  "round_half_even m k =
     (let q = m div 2 ^ k; r = m mod 2 ^ k
      in if 2 ^ k < 2 * r \<or> (2 * r = 2 ^ k \<and> odd q) then q + 1 else q)"

definition round_double :: "int \<Rightarrow> int \<Rightarrow> (int \<times> int) option" where
  "round_double m e =
     (let u = max (int (bit_length (nat \<bar>m\<bar>)) + e - 53) (- 1074);
          (m', e') = (if u \<le> e then (m, e) else (round_half_even m (nat (u - e)), u))
      in if 1024 < int (bit_length (nat \<bar>m'\<bar>)) + e' then None else Some (m', e'))"

text \<open>
  The values of float arithmetic: a finite double \<open>Finite m e\<close> of value \<open>m * 2 ^ e\<close>, an
  infinity (of either sign) or \<^verbatim>\<open>nan\<close>.
\<close>

datatype float_value = Finite int int | Infinite | NaN

text \<open>
  The operand of a float operation. An int is converted to the nearest double, and
  \<^verbatim>\<open>OverflowError\<close> is raised when it is too large for one.
\<close>

definition as_float :: "pynum \<Rightarrow> error + float_value" where
  "as_float x =
     (case x of
        PyInt n \<Rightarrow>
          (case round_double n 0 of None \<Rightarrow> Inl OverflowError | Some (m, e) \<Rightarrow> Inr (Finite m e))
      | PyFloat m e \<Rightarrow>
          (case round_double m e of None \<Rightarrow> Inr Infinite | Some (m', e') \<Rightarrow> Inr (Finite m' e')))"

text \<open>The product of two floats: the exact product, rounded.\<close>

fun float_mul :: "float_value \<Rightarrow> float_value \<Rightarrow> float_value" where
  "float_mul (Finite m1 e1) (Finite m2 e2) =
     (case round_double (m1 * m2) (e1 + e2) of None \<Rightarrow> Infinite | Some (m, e) \<Rightarrow> Finite m e)"
| "float_mul NaN y = NaN"
| "float_mul x NaN = NaN"
| "float_mul Infinite (Finite m e) = (if m = 0 then NaN else Infinite)"
| "float_mul (Finite m e) Infinite = (if m = 0 then NaN else Infinite)"
| "float_mul Infinite Infinite = Infinite"

text \<open>
  \<^verbatim>\<open>int(x)\<close> on a float truncates towards zero; it raises \<^verbatim>\<open>OverflowError\<close> on an
  infinity and \<^verbatim>\<open>ValueError\<close> on \<^verbatim>\<open>nan\<close>.
\<close>

definition float_trunc :: "int \<Rightarrow> int \<Rightarrow> int" where
  "float_trunc m e =
     (if 0 \<le> e then m * 2 ^ nat e else sgn m * (\<bar>m\<bar> div 2 ^ nat (- e)))"

definition int_of_float :: "float_value \<Rightarrow> error + int" where
  "int_of_float x =
     (case x of
        Finite m e \<Rightarrow> Inr (float_trunc m e)
      | Infinite \<Rightarrow> Inl OverflowError
      | NaN \<Rightarrow> Inl ValueError)"

text \<open>
  \<^verbatim>\<open>int(a * b)\<close>: the product of two ints is exact; when one factor is a float, the
  other is converted to a float and the product is a rounded double.
\<close>

definition int_of_product :: "pynum \<Rightarrow> pynum \<Rightarrow> error + int" where
  "int_of_product a b =
     (case (a, b) of
        (PyInt x, PyInt y) \<Rightarrow> Inr (x * y)
      | _ \<Rightarrow>
          (case as_float a of
             Inl err \<Rightarrow> Inl err
           | Inr x \<Rightarrow>
               (case as_float b of
                  Inl err \<Rightarrow> Inl err
                | Inr y \<Rightarrow> int_of_float (float_mul x y))))"

text \<open>\<^verbatim>\<open>a > n\<close> for a number \<open>a\<close> and an int \<open>n\<close>, compared by value.\<close>

definition py_gt :: "pynum \<Rightarrow> int \<Rightarrow> bool" where
  "py_gt a n =
     (case a of
        PyInt x \<Rightarrow> n < x
      | PyFloat m e \<Rightarrow> (if 0 \<le> e then n < m * 2 ^ nat e else n * 2 ^ nat (- e) < m))"

text \<open>
  A Python 2 \<^verbatim>\<open>dict\<close> iterates over its keys in the order of their hash-table slots,
  which the language leaves unspecified. The model takes the slot of each key as a
  parameter \<open>slot\<close>; keys that share a slot keep the order in which they were inserted.
  Every iteration order is the order of some \<open>slot\<close>. For ints from 0 to 7 in a small
  dict CPython uses the value itself, that is \<open>slot = nat\<close>.

  \<open>first_seen\<close> lists the distinct elements in the order of their first occurrence,
  the order in which \<^verbatim>\<open>Counter\<close> and \<^verbatim>\<open>groupby\<close> insert their keys.
\<close>

fun first_seen :: "'k list \<Rightarrow> 'k list" where
  "first_seen [] = []"
| "first_seen (x # xs) = x # removeAll x (first_seen xs)"

definition dict_keys :: "('k \<Rightarrow> nat) \<Rightarrow> 'k list \<Rightarrow> 'k list" where
  "dict_keys slot ks = sort_key slot (first_seen ks)"

text \<open>\<^verbatim>\<open>collections.Counter(xs)\<close>, as the list of its items in iteration order.\<close>

definition Counter :: "('k \<Rightarrow> nat) \<Rightarrow> 'k list \<Rightarrow> ('k \<times> nat) list" where
  "Counter slot xs = map (\<lambda>k. (k, count_list xs k)) (dict_keys slot xs)"

text \<open>
  \<^verbatim>\<open>toolz.groupby(key, seq)\<close>: a dict from each key to the list of the elements with
  that key, in the order of the sequence; as the list of its items in iteration order.
\<close>

definition groupby :: "('k \<Rightarrow> nat) \<Rightarrow> ('a \<Rightarrow> 'k) \<Rightarrow> 'a list \<Rightarrow> ('k \<times> 'a list) list" where
  "groupby slot key xs =
     map (\<lambda>k. (k, filter (\<lambda>x. key x = k) xs)) (dict_keys slot (map key xs))"

text \<open>
  \<^verbatim>\<open>d[k]\<close> raises \<^verbatim>\<open>KeyError\<close> for a missing key. \<open>balance\<close> initialises both
  classes to \<^verbatim>\<open>None\<close> and may look that up; \<^verbatim>\<open>None\<close> is never a label here, so
  the lookup of \<open>None\<close> is a \<^verbatim>\<open>KeyError\<close> too.
\<close>

definition getitem :: "('k \<times> 'v) list \<Rightarrow> 'k \<Rightarrow> error + 'v" where
  "getitem d k = (case map_of d k of None \<Rightarrow> Inl KeyError | Some v \<Rightarrow> Inr v)"

definition getitem_opt :: "('k \<times> 'v) list \<Rightarrow> 'k option \<Rightarrow> error + ('k \<times> 'v)" where
  "getitem_opt d key =
     (case key of
        None \<Rightarrow> Inl KeyError
      | Some k \<Rightarrow> (case getitem d k of Inl e \<Rightarrow> Inl e | Inr v \<Rightarrow> Inr (k, v)))"

subsection \<open>subsample\<close>

text \<open>
  \<^verbatim>\<open>
  def subsample(graphs, targets, subsample_size=100):
      tg = zip(targets, graphs)
      num_classes = len(set(targets))
      class_graphs = groupby(lambda x: first(x), tg)
      subgraphs = []
      subtargets = []
      for y in class_graphs:
          class_subgraphs = class_graphs[y][:subsample_size / num_classes]
          class_subgraphs = [second(x) for x in class_subgraphs]
          subgraphs += class_subgraphs
          subtargets += [y] * len(class_subgraphs)
      subgraphs, subtargets = paired_shuffle(subgraphs, subtargets)
      return list(subgraphs), list(subtargets)
  \<close>
  The division is evaluated in every iteration of the loop, and in none when the
  dict is empty. \<open>subsample_loop\<close> is the loop over the items of \<open>class_graphs\<close>.
\<close>

fun subsample_loop ::
  "int \<Rightarrow> nat \<Rightarrow> ('c \<times> ('c \<times> 'g) list) list \<Rightarrow> 'g list \<times> 'c list
     \<Rightarrow> error + ('g list \<times> 'c list)" where
  "subsample_loop subsample_size num_classes [] acc = Inr acc"
| "subsample_loop subsample_size num_classes ((y, members) # rest) (subgraphs, subtargets) =
     (if num_classes = 0 then Inl ZeroDivisionError
      else
        let class_subgraphs = slice_to (subsample_size div int num_classes) members;
            class_subgraphs = map snd class_subgraphs
        in subsample_loop subsample_size num_classes rest
             (subgraphs @ class_subgraphs,
              subtargets @ replicate (length class_subgraphs) y))"

definition subsample ::
  "('c \<Rightarrow> nat) \<Rightarrow> rng \<Rightarrow> 'g list \<Rightarrow> 'c list \<Rightarrow> int
     \<Rightarrow> error + (('g list \<times> 'c list) \<times> rng)" where
  "subsample slot g graphs targets subsample_size =
     (let tg = zip targets graphs;
          num_classes = card (set targets);
          class_graphs = groupby slot fst tg
      in case subsample_loop subsample_size num_classes class_graphs ([], []) of
           Inl e \<Rightarrow> Inl e
         | Inr (subgraphs, subtargets) \<Rightarrow> paired_shuffle g subgraphs subtargets)"

subsection \<open>balance\<close>

text \<open>
  \<^verbatim>\<open>
  def balance(graphs, targets, estimator, ratio=2):
      class_counts = Counter(targets)
      majority_class = None
      max_count = 0
      minority_class = None
      min_count = 1e6
      for class_key in class_counts:
          if max_count < class_counts[class_key]:
              majority_class = class_key
              max_count = class_counts[class_key]
          if min_count > class_counts[class_key]:
              minority_class = class_key
              min_count = class_counts[class_key]
      desired_size = int(min_count * ratio)
  \<close>
  \<open>scan_step\<close> is the body of the loop, on the state
  \<open>(majority_class, max_count, minority_class, min_count)\<close>; \<open>min_count\<close> starts as the
  float \<^verbatim>\<open>1e6\<close> and is an int once a class has been taken. The desired size is computed
  before the classes are looked up, so its error comes first.
\<close>

type_synonym 'c extremes = "'c option \<times> nat \<times> 'c option \<times> pynum"

definition scan_step :: "'c \<times> nat \<Rightarrow> 'c extremes \<Rightarrow> 'c extremes" where
  "scan_step item st =
     (case (item, st) of
        ((class_key, n), (majority_class, max_count, minority_class, min_count)) \<Rightarrow>
          let (majority_class, max_count) =
                (if max_count < n then (Some class_key, n) else (majority_class, max_count));
              (minority_class, min_count) =
                (if py_gt min_count (int n) then (Some class_key, PyInt (int n))
                 else (minority_class, min_count))
          in (majority_class, max_count, minority_class, min_count))"

definition class_extremes :: "('c \<Rightarrow> nat) \<Rightarrow> 'c list \<Rightarrow> 'c extremes" where
  "class_extremes slot targets = fold scan_step (Counter slot targets) (None, 0, None, PyFloat 15625 6)"

definition majority_class :: "('c \<Rightarrow> nat) \<Rightarrow> 'c list \<Rightarrow> 'c option" where
  "majority_class slot targets = fst (class_extremes slot targets)"

definition minority_class :: "('c \<Rightarrow> nat) \<Rightarrow> 'c list \<Rightarrow> 'c option" where
  "minority_class slot targets = fst (snd (snd (class_extremes slot targets)))"

definition min_count :: "('c \<Rightarrow> nat) \<Rightarrow> 'c list \<Rightarrow> pynum" where
  "min_count slot targets = snd (snd (snd (class_extremes slot targets)))"

definition desired_size :: "('c \<Rightarrow> nat) \<Rightarrow> 'c list \<Rightarrow> pynum \<Rightarrow> error + int" where
  "desired_size slot targets ratio = int_of_product (min_count slot targets) ratio"

text \<open>
  \<^verbatim>\<open>
      if estimator:
          preds = estimator.decision_function(maj_graphs)
      else:
          preds = [random.random() for i in range(len(maj_graphs))]
      preds = [abs(pred) for pred in preds]
  \<close>
  The estimator is \<^verbatim>\<open>None\<close> or an object, given here by its \<^verbatim>\<open>decision_function\<close>.
\<close>

definition margins ::
  "('g list \<Rightarrow> real list) option \<Rightarrow> rng \<Rightarrow> 'g list \<Rightarrow> real list \<times> rng" where
  "margins estimator g maj_graphs =
     (let (preds, g') =
            (case estimator of
               Some decision_function \<Rightarrow> (decision_function maj_graphs, g)
             | None \<Rightarrow> randoms (length maj_graphs) g)
      in (map abs preds, g'))"

text \<open>
  \<^verbatim>\<open>pred_graphs = sorted(zip(preds, maj_graphs))[:desired_size]\<close>: the pairs are
  compared lexicographically, first by margin and then by graph.
\<close>

definition select_majority :: "int \<Rightarrow> real list \<Rightarrow> 'g::linorder list \<Rightarrow> (real \<times> 'g) list" where
  "select_majority desired preds maj_graphs = slice_to desired (sort (zip preds maj_graphs))"

text \<open>
  \<^verbatim>\<open>
      tg = zip(targets, graphs)
      class_graphs = groupby(lambda x: first(x), tg)
      maj_graphs = [second(x) for x in class_graphs[majority_class]]
      min_graphs = [second(x) for x in class_graphs[minority_class]]
      ...
      pred_graphs = sorted(zip(preds, maj_graphs))[:desired_size]
      maj_graphs = [g for p, g in pred_graphs]
      bal_graphs = min_graphs + maj_graphs
      bal_pos = [minority_class] * len(min_graphs)
      bal_neg = [majority_class] * len(maj_graphs)
      bal_targets = bal_pos + bal_neg
      return paired_shuffle(bal_graphs, bal_targets)
  \<close>
\<close>

definition balance ::
  "('c \<Rightarrow> nat) \<Rightarrow> rng \<Rightarrow> 'g::linorder list \<Rightarrow> 'c list \<Rightarrow> ('g list \<Rightarrow> real list) option \<Rightarrow> pynum
     \<Rightarrow> error + (('g list \<times> 'c list) \<times> rng)" where
  "balance slot g graphs targets estimator ratio =
     (case desired_size slot targets ratio of
        Inl e \<Rightarrow> Inl e
      | Inr desired \<Rightarrow>
      let tg = zip targets graphs;
          class_graphs = groupby slot fst tg
      in case getitem_opt class_graphs (majority_class slot targets) of
           Inl e \<Rightarrow> Inl e
         | Inr (majority, maj_members) \<Rightarrow>
       (case getitem_opt class_graphs (minority_class slot targets) of
           Inl e \<Rightarrow> Inl e
         | Inr (minority, min_members) \<Rightarrow>
        let maj_graphs = map snd maj_members;
            min_graphs = map snd min_members;
            (preds, g') = margins estimator g maj_graphs;
            pred_graphs = select_majority desired preds maj_graphs;
            maj_graphs = map snd pred_graphs;
            bal_graphs = min_graphs @ maj_graphs;
            bal_pos = replicate (length min_graphs) minority;
            bal_neg = replicate (length maj_graphs) majority;
            bal_targets = bal_pos @ bal_neg
        in paired_shuffle g' bal_graphs bal_targets))"

subsection \<open>The estimator\<close>

text \<open>
  The libraries the estimator delegates to are parameters of the model: the graph
  vectoriser of \<^verbatim>\<open>eden.graph\<close> and the linear classifier and cross-validation of
  scikit-learn, over a type \<open>'x\<close> of feature matrices and a type \<open>'m\<close> of classifier
  states. They are taken as total functions; their failures are not modelled.

  \<^item> \<open>vectorize graphs r d discrete n_jobs\<close> is
    \<^verbatim>\<open>vectorize(graphs, r=r, d=d, discrete=discrete, n_jobs=n_jobs)\<close>;
  \<^item> \<open>SGDClassifier n_jobs\<close> is the unfit classifier
    \<^verbatim>\<open>SGDClassifier(average=True, class_weight='balanced', shuffle=True, n_jobs=n_jobs)\<close>;
  \<^item> \<open>sk_fit model x y\<close> is the state of \<open>model\<close> after \<^verbatim>\<open>model.fit(x, y)\<close>, which the
    call also returns;
  \<^item> \<open>sk_decision_function model x\<close> is \<^verbatim>\<open>model.decision_function(x)\<close>;
  \<^item> \<open>sk_cross_val_score model x y cv scoring n_jobs\<close> is scikit-learn's
    \<^verbatim>\<open>cross_val_score\<close>, which fits clones of the classifier it is given and returns
    one score per fold.
\<close>

record ('g, 'x, 'm, 'c) libs =
  vectorize :: "'g list \<Rightarrow> int \<Rightarrow> int \<Rightarrow> bool \<Rightarrow> int \<Rightarrow> 'x"
  SGDClassifier :: "int \<Rightarrow> 'm"
  sk_fit :: "'m \<Rightarrow> 'x \<Rightarrow> 'c list \<Rightarrow> 'm"
  sk_decision_function :: "'m \<Rightarrow> 'x \<Rightarrow> real list"
  sk_cross_val_score :: "'m \<Rightarrow> 'x \<Rightarrow> 'c list \<Rightarrow> nat \<Rightarrow> string \<Rightarrow> int \<Rightarrow> real list"

text \<open>
  The attributes of an \<^verbatim>\<open>EdenEstimator\<close>; the attribute \<^verbatim>\<open>self.x\<close> is the field
  \<open>self_x\<close>.
\<close>

record 'm estimator =
  self_r :: int
  self_d :: int
  self_n_jobs :: int
  self_discrete :: bool
  self_balance :: bool
  self_subsample_size :: int
  self_ratio :: pynum
  self_model :: 'm

text \<open>
  \<^verbatim>\<open>
  def set_params(self, r=2, d=2, n_jobs=-1, discrete=True,
                 balance=False, subsample_size=200, ratio=2):
      self.r = r
      ...
      self.model = SGDClassifier(
          average=True, class_weight='balanced', shuffle=True, n_jobs=n_jobs)
      return self
  \<close>
  \<^verbatim>\<open>__init__\<close> calls \<^verbatim>\<open>set_params\<close> with its own arguments, so a new estimator has
  every attribute set from them and an unfit classifier. The constructor's defaults are \<^verbatim>\<open>r=1, d=1, n_jobs=-1, discrete=True, balance=False,
  subsample_size=200, ratio=2\<close>; the callers below write them out.
\<close>

definition EdenEstimator ::
  "('g, 'x, 'm, 'c) libs \<Rightarrow> int \<Rightarrow> int \<Rightarrow> int \<Rightarrow> bool \<Rightarrow> bool \<Rightarrow> int \<Rightarrow> pynum \<Rightarrow> 'm estimator" where
  "EdenEstimator L r d n_jobs discrete bal subsample_size ratio =
     \<lparr>self_r = r, self_d = d, self_n_jobs = n_jobs, self_discrete = discrete,
      self_balance = bal, self_subsample_size = subsample_size, self_ratio = ratio,
      self_model = SGDClassifier L n_jobs\<rparr>"

definition transform :: "('g, 'x, 'm, 'c) libs \<Rightarrow> 'm estimator \<Rightarrow> 'g list \<Rightarrow> 'x" where
  "transform L self graphs =
     vectorize L graphs (self_r self) (self_d self) (self_discrete self) (self_n_jobs self)"

definition decision_function ::
  "('g, 'x, 'm, 'c) libs \<Rightarrow> 'm estimator \<Rightarrow> 'g list \<Rightarrow> real list" where
  "decision_function L self graphs =
     (let x = transform L self graphs;
          preds = sk_decision_function L (self_model self) x
      in preds)"

text \<open>
  \<^verbatim>\<open>
  def fit(self, graphs, targets, randomize=True):
      if self.balance:
          if randomize:
              bal_graphs, bal_targets = balance(
                  graphs, targets, None, ratio=self.ratio)
          else:
              samp_graphs, samp_targets = subsample(
                  graphs, targets, subsample_size=self.subsample_size)
              x = self.transform(samp_graphs)
              self.model.fit(x, samp_targets)
              bal_graphs, bal_targets = balance(
                  graphs, targets, self, ratio=self.ratio)
          size = len(bal_targets)
          logger.debug('Dataset size=%d' % (size))
          x = self.transform(bal_graphs)
          self.model = self.model.fit(x, bal_targets)
      else:
          x = self.transform(graphs)
          self.model = self.model.fit(x, targets)
      return self
  \<close>
  The method returns the estimator, here together with the generator. An exception
  of \<open>subsample\<close> or \<open>balance\<close> leaves the method.
\<close>

definition fit ::
  "('g::linorder, 'x, 'm, 'c) libs \<Rightarrow> ('c \<Rightarrow> nat) \<Rightarrow> rng \<Rightarrow> 'm estimator \<Rightarrow> 'g list \<Rightarrow> 'c list \<Rightarrow> bool
     \<Rightarrow> error + ('m estimator \<times> rng)" where
  "fit L slot g self graphs targets randomize =
     (if self_balance self then
        (case (if randomize then
                 (case balance slot g graphs targets None (self_ratio self) of
                    Inl e \<Rightarrow> Inl e
                  | Inr (bal, g') \<Rightarrow> Inr (self, bal, g'))
               else
                 (case subsample slot g graphs targets (self_subsample_size self) of
                    Inl e \<Rightarrow> Inl e
                  | Inr ((samp_graphs, samp_targets), g') \<Rightarrow>
                      let x = transform L self samp_graphs;
                          self = self\<lparr>self_model := sk_fit L (self_model self) x samp_targets\<rparr>
                      in (case balance slot g' graphs targets
                                 (Some (decision_function L self)) (self_ratio self) of
                            Inl e \<Rightarrow> Inl e
                          | Inr (bal, g'') \<Rightarrow> Inr (self, bal, g'')))) of
           Inl e \<Rightarrow> Inl e
         | Inr (self, (bal_graphs, bal_targets), g') \<Rightarrow>
             let x = transform L self bal_graphs
             in Inr (self\<lparr>self_model := sk_fit L (self_model self) x bal_targets\<rparr>, g'))
      else
        let x = transform L self graphs
        in Inr (self\<lparr>self_model := sk_fit L (self_model self) x targets\<rparr>, g))"

text \<open>
  \<^verbatim>\<open>
  def cross_val_score(self, graphs, target, scoring='roc_auc', cv=5):
      x = self.transform(graphs)
      scores = cross_val_score(
          self.model, x, target, cv=cv, scoring=scoring, n_jobs=self.n_jobs)
      return scores
  \<close>
  The method assigns no attribute; the model returns the scores and the estimator
  after the call.
\<close>

definition cross_val_score ::
  "('g, 'x, 'm, 'c) libs \<Rightarrow> 'm estimator \<Rightarrow> 'g list \<Rightarrow> 'c list \<Rightarrow> string \<Rightarrow> nat
     \<Rightarrow> real list \<times> 'm estimator" where
  "cross_val_score L self graphs target scoring cv =
     (let x = transform L self graphs;
          scores = sk_cross_val_score L (self_model self) x target cv scoring (self_n_jobs self)
      in (scores, self))"

subsection \<open>Randomised model selection\<close>

text \<open>
  \<^verbatim>\<open>range(a, b)\<close> on ints, and the grid
  \<^verbatim>\<open>param_distr = {"r": list(range(1, 5)), "d": list(range(0, 6))}\<close> as the list of
  its items in iteration order (see \<open>dict_keys\<close>; CPython 2.7 iterates \<^verbatim>\<open>"r"\<close> before
  \<^verbatim>\<open>"d"\<close>, the order of \<open>key_slot = (\<lambda>_. 0)\<close>).
\<close>

definition py_range :: "int \<Rightarrow> int \<Rightarrow> int list" where
  "py_range a b = [a..b - 1]"

definition param_distr :: "(string \<Rightarrow> nat) \<Rightarrow> (string \<times> int list) list" where
  "param_distr key_slot =
     sort_key (\<lambda>item. key_slot (fst item)) [(''r'', py_range 1 5), (''d'', py_range 0 6)]"

text \<open>
  \<^verbatim>\<open>
  def _sample_params(param_distr):
      params = dict()
      for key in param_distr:
          params[key] = random.choice(param_distr[key])
      return params
  \<close>
  The result dict is the list of its items, in the order of the loop.
\<close>

fun sample_params ::
  "rng \<Rightarrow> (string \<times> int list) list \<Rightarrow> error + ((string \<times> int) list \<times> rng)" where
  "sample_params g [] = Inr ([], g)"
| "sample_params g ((key, vals) # rest) =
     (case choice g vals of
        Inl e \<Rightarrow> Inl e
      | Inr (v, g') \<Rightarrow>
          (case sample_params g' rest of
             Inl e \<Rightarrow> Inl e
           | Inr (params, g'') \<Rightarrow> Inr ((key, v) # params, g'')))"

text \<open>
  A keyword argument taken from \<^verbatim>\<open>**params\<close>, or the default of the constructor.
\<close>

definition kwarg :: "(string \<times> int) list \<Rightarrow> string \<Rightarrow> int \<Rightarrow> int" where
  "kwarg params key dflt = (case map_of params key of Some v \<Rightarrow> v | None \<Rightarrow> dflt)"

text \<open>\<^verbatim>\<open>np.mean(scores)\<close>; scikit-learn returns one score per fold, at least two.\<close>

definition np_mean :: "real list \<Rightarrow> real" where
  "np_mean scores = sum_list scores / real (length scores)"

text \<open>
  \<^verbatim>\<open>
  def _eval_params(graphs, targets, param_distr):
      params = _sample_params(param_distr)
      est = EdenEstimator(n_jobs=1, **params)
      scores = est.cross_val_score(graphs, targets)
      return np.mean(scores), params

  def _eval(data):
      return _eval_params(*data)
  \<close>
\<close>

definition eval_params ::
  "('g, 'x, 'm, 'c) libs \<Rightarrow> rng \<Rightarrow> 'g list \<Rightarrow> 'c list \<Rightarrow> (string \<times> int list) list
     \<Rightarrow> error + ((real \<times> (string \<times> int) list) \<times> rng)" where
  "eval_params L g graphs targets distr =
     (case sample_params g distr of
        Inl e \<Rightarrow> Inl e
      | Inr (params, g') \<Rightarrow>
          let est = EdenEstimator L (kwarg params ''r'' 1) (kwarg params ''d'' 1) 1
                      True False 200 (PyInt 2);
              (scores, est) = cross_val_score L est graphs targets ''roc_auc'' 5
          in Inr ((np_mean scores, params), g'))"

definition eval ::
  "('g, 'x, 'm, 'c) libs \<Rightarrow> rng \<Rightarrow> 'g list \<times> 'c list \<times> (string \<times> int list) list
     \<Rightarrow> error + ((real \<times> (string \<times> int) list) \<times> rng)" where
  "eval L g data = (case data of (graphs, targets, distr) \<Rightarrow> eval_params L g graphs targets distr)"

text \<open>
  \<^verbatim>\<open>pool.map(f, items)\<close> of a \<^verbatim>\<open>multiprocessing.Pool\<close>: every item is evaluated in a
  worker process, which has its own copy of the generator; the results come back in
  the order of the items, and an exception of a task is raised in the caller. The
  state of the generator that the task of item \<open>k\<close> starts from is \<open>worker_rng k\<close>;
  the generator of the caller is not touched.
\<close>

fun pool_map ::
  "(nat \<Rightarrow> rng) \<Rightarrow> (rng \<Rightarrow> 'a \<Rightarrow> error + ('b \<times> rng)) \<Rightarrow> nat \<Rightarrow> 'a list \<Rightarrow> error + 'b list" where
  "pool_map worker_rng f k [] = Inr []"
| "pool_map worker_rng f k (item # items) =
     (case f (worker_rng k) item of
        Inl e \<Rightarrow> Inl e
      | Inr (y, g') \<Rightarrow>
          (case pool_map worker_rng f (Suc k) items of
             Inl e \<Rightarrow> Inl e
           | Inr ys \<Rightarrow> Inr (y # ys)))"

text \<open>
  \<^verbatim>\<open>max(scores)\<close> raises \<^verbatim>\<open>ValueError\<close> on an empty list and keeps the first of the
  greatest elements otherwise. The elements are tuples \<open>(score, params)\<close>, which
  Python 2 compares by score and then by dict; two dicts with the keys \<^verbatim>\<open>"d"\<close> and
  \<^verbatim>\<open>"r"\<close> are compared at the smallest key at which they differ, that is by
  \<open>(d, r)\<close>. \<open>trial_key\<close> maps a tuple to the triple that carries this order.
\<close>

definition trial_key :: "real \<times> (string \<times> int) list \<Rightarrow> real \<times> int \<times> int" where
  "trial_key t = (fst t, kwarg (snd t) ''d'' 1, kwarg (snd t) ''r'' 1)"

definition py_max :: "('a \<Rightarrow> 'k::linorder) \<Rightarrow> 'a list \<Rightarrow> error + 'a" where
  "py_max key xs =
     (case xs of
        [] \<Rightarrow> Inl ValueError
      | x # rest \<Rightarrow> Inr (fold (\<lambda>item best. if key best < key item then item else best) rest x))"

text \<open>
  \<^verbatim>\<open>
  def model_selection_rand(self, graphs, targets, n_iter=30, subsample_size=None):
      param_distr = {"r": list(range(1, 5)), "d": list(range(0, 6))}
      if subsample_size:
          graphs, targets = subsample(
              graphs, targets, subsample_size=subsample_size)
      pool = mp.Pool()
      scores = pool.map(_eval, [(graphs, targets, param_distr)] * n_iter)
      pool.close()
      pool.join()
      best_params = max(scores)[1]
      logger.debug("Best parameters:\n%s" % (best_params))
      self = EdenEstimator(**best_params)
      return self
  \<close>
  \<open>search_data\<close> is the optional subsampling (\<^verbatim>\<open>None\<close> and 0 are false), \<open>run_trials\<close>
  the call of \<^verbatim>\<open>pool.map\<close>.
\<close>

definition search_data ::
  "('c \<Rightarrow> nat) \<Rightarrow> rng \<Rightarrow> 'g list \<Rightarrow> 'c list \<Rightarrow> int option
     \<Rightarrow> error + (('g list \<times> 'c list) \<times> rng)" where
  "search_data slot g graphs targets subsample_size =
     (case subsample_size of
        None \<Rightarrow> Inr ((graphs, targets), g)
      | Some n \<Rightarrow>
          if n = 0 then Inr ((graphs, targets), g) else subsample slot g graphs targets n)"

definition run_trials ::
  "('g, 'x, 'm, 'c) libs \<Rightarrow> (string \<Rightarrow> nat) \<Rightarrow> (nat \<Rightarrow> rng) \<Rightarrow> 'g list \<Rightarrow> 'c list \<Rightarrow> int
     \<Rightarrow> error + (real \<times> (string \<times> int) list) list" where
  "run_trials L key_slot worker_rng graphs targets n_iter =
     pool_map worker_rng (eval L) 0
       (replicate (nat n_iter) (graphs, targets, param_distr key_slot))"

definition model_selection_rand ::
  "('g, 'x, 'm, 'c) libs \<Rightarrow> ('c \<Rightarrow> nat) \<Rightarrow> (string \<Rightarrow> nat) \<Rightarrow> (nat \<Rightarrow> rng) \<Rightarrow> rng \<Rightarrow> 'm estimator
     \<Rightarrow> 'g list \<Rightarrow> 'c list \<Rightarrow> int \<Rightarrow> int option \<Rightarrow> error + ('m estimator \<times> rng)" where
  "model_selection_rand L slot key_slot worker_rng g self graphs targets n_iter subsample_size =
     (case search_data slot g graphs targets subsample_size of
        Inl e \<Rightarrow> Inl e
      | Inr ((graphs, targets), g') \<Rightarrow>
          (case run_trials L key_slot worker_rng graphs targets n_iter of
             Inl e \<Rightarrow> Inl e
           | Inr scores \<Rightarrow>
               (case py_max trial_key scores of
                  Inl e \<Rightarrow> Inl e
                | Inr best \<Rightarrow>
                    let best_params = snd best;
                        self = EdenEstimator L (kwarg best_params ''r'' 1)
                                 (kwarg best_params ''d'' 1) (- 1) True False 200 (PyInt 2)
                    in Inr (self, g'))))"

subsection \<open>Notions used to state the properties\<close>

text \<open>The value a call returns, without the state of the generator.\<close>

abbreviation value_of :: "error + ('a \<times> rng) \<Rightarrow> error + 'a" where
  "value_of \<equiv> map_sum id fst"

text \<open>
  The graphs of class \<open>k\<close>, in dataset order: what
  \<^verbatim>\<open>[second(x) for x in class_graphs[k]]\<close> evaluates to when \<open>k\<close> is a key.
\<close>

definition class_members :: "'g list \<Rightarrow> 'c list \<Rightarrow> 'c \<Rightarrow> 'g list" where
  "class_members graphs targets k = map snd (filter (\<lambda>x. fst x = k) (zip targets graphs))"

text \<open>Two generator states for concrete runs.\<close>

definition rng0 :: rng where
  "rng0 = (\<lambda>_. 0)"

definition rng1 :: rng where
  "rng1 = (\<lambda>n. real (3 * n + 2) / 7)"

text \<open>A toy instance of the libraries, for concrete runs.\<close>

definition toy_libs :: "(nat, real list, real option, int) libs" where
  "toy_libs =
     \<lparr>vectorize = (\<lambda>graphs r d discrete n_jobs. map (\<lambda>a. real a - 12 + real_of_int (r - d)) graphs),
      SGDClassifier = (\<lambda>n_jobs. None),
      sk_fit = (\<lambda>model x y. Some (sum_list x)),
      sk_decision_function = (\<lambda>model x. x),
      sk_cross_val_score = (\<lambda>model x y cv scoring n_jobs. replicate cv (sum_list x))\<rparr>"

text \<open>The generator states of the worker processes, for concrete runs.\<close>

definition toy_workers :: "nat \<Rightarrow> rng" where
  "toy_workers k = (\<lambda>n. real (2 * k + 5 * n + 1) / 10)"

section \<open>Properties\<close>

subsection \<open>The generator and the shuffle\<close>

lemma random_range: "random g = (u, g') \<Longrightarrow> 0 \<le> u \<and> u < 1"
  by (auto simp: random_def frac_lt_1)

lemma random_index:
  assumes "random g = (u, g')"
  shows "nat \<lfloor>u * real (Suc n)\<rfloor> < Suc n"
proof -
  from assms have u: "0 \<le> u" "u < 1" by (auto dest: random_range)
  have "u * real (Suc n) < real (Suc n)"
    using u by (simp add: mult_less_cancel_right2 del: of_nat_Suc)
  then have "\<lfloor>u * real (Suc n)\<rfloor> < int (Suc n)"
    by (simp add: floor_less_iff del: of_nat_Suc)
  then show ?thesis by linarith
qed

lemma shuffle_loop_mset:
  "k < length x \<or> k = 0 \<Longrightarrow> mset (fst (shuffle_loop k g x)) = mset x"
proof (induction k arbitrary: g x)
  case 0
  then show ?case by simp
next
  case (Suc k)
  obtain u g' where r: "random g = (u, g')" by (cases "random g")
  from Suc.prems have kx: "Suc k < length x" by auto
  let ?j = "nat \<lfloor>u * real (Suc k + 1)\<rfloor>"
  have "?j < Suc (Suc k)" using random_index [OF r, of "Suc k"] by simp
  with kx have j: "?j < length x" by linarith
  let ?x' = "x[Suc k := x ! ?j, ?j := x ! Suc k]"
  have sw: "mset ?x' = mset x" using mset_swap [OF j kx] .
  have "k < length ?x' \<or> k = 0" using kx by simp
  from Suc.IH [OF this] have "mset (fst (shuffle_loop k g' ?x')) = mset ?x'" .
  with sw r show ?case by (simp add: Let_def)
qed

lemma shuffle_mset: "mset (fst (shuffle g x)) = mset x"
  unfolding shuffle_def by (rule shuffle_loop_mset) (cases x, auto)

lemma shuffle_length: "length (fst (shuffle g x)) = length x"
  using shuffle_mset [of g x] by (metis size_mset)

lemma shuffle_set: "set (fst (shuffle g x)) = set x"
  using shuffle_mset [of g x] by (metis set_mset_mset)

lemma shuffle_Nil: "shuffle g [] = ([], g)"
  by (simp add: shuffle_def)

lemma zip_map_fst_snd_id: "zip (map fst ps) (map snd ps) = ps"
  by (induction ps) auto

text \<open>When the zipped list is not empty, \<open>paired_shuffle\<close> returns a permutation of it.\<close>

lemma paired_shuffle_returns:
  assumes "zip xs ys \<noteq> []"
  shows "\<exists>i1 i2 g'. paired_shuffle g xs ys = Inr ((i1, i2), g')
           \<and> mset (zip i1 i2) = mset (zip xs ys)
           \<and> length i1 = length (zip xs ys) \<and> length i2 = length (zip xs ys)"
proof -
  obtain ps g' where s: "shuffle g (zip xs ys) = (ps, g')" by (cases "shuffle g (zip xs ys)")
  have m: "mset ps = mset (zip xs ys)" using shuffle_mset [of g "zip xs ys"] s by simp
  have l: "length ps = length (zip xs ys)" using shuffle_length [of g "zip xs ys"] s by simp
  from m assms have ne: "ps \<noteq> []" by (metis mset_zero_iff)
  have "paired_shuffle g xs ys = Inr ((map fst ps, map snd ps), g')"
    using s ne by (simp add: paired_shuffle_def unzip2_def del: zip_eq_Nil_iff)
  then show ?thesis using m l by (simp add: zip_map_fst_snd_id)
qed

lemma paired_shuffle_Inr:
  assumes "paired_shuffle g xs ys = Inr ((i1, i2), g')"
  shows "zip xs ys \<noteq> [] \<and> mset (zip i1 i2) = mset (zip xs ys)
           \<and> length i1 = length (zip xs ys) \<and> length i2 = length (zip xs ys)"
proof (cases "zip xs ys = []")
  case True
  then have "paired_shuffle g xs ys = Inl ValueError"
    by (simp add: paired_shuffle_def shuffle_Nil unzip2_def del: zip_eq_Nil_iff)
  with assms show ?thesis by simp
next
  case False
  from paired_shuffle_returns [OF False, of g] assms show ?thesis using False by auto
qed

lemma paired_shuffle_empty: "zip xs ys = [] \<Longrightarrow> paired_shuffle g xs ys = Inl ValueError"
  by (simp add: paired_shuffle_def shuffle_Nil unzip2_def del: zip_eq_Nil_iff)

subsection \<open>Dictionaries\<close>

lemma first_seen_set: "set (first_seen xs) = set xs"
  by (induction xs) auto

lemma first_seen_distinct: "distinct (first_seen xs)"
  by (induction xs) (auto simp: distinct_removeAll)

lemma dict_keys_set: "set (dict_keys slot xs) = set xs"
  by (simp add: dict_keys_def first_seen_set)

lemma dict_keys_distinct: "distinct (dict_keys slot xs)"
  by (simp add: dict_keys_def first_seen_distinct)

lemma dict_keys_length: "length (dict_keys slot xs) = card (set xs)"
  using dict_keys_distinct [of slot xs] dict_keys_set [of slot xs]
  by (metis distinct_card)

lemma map_of_groupby:
  "map_of (groupby slot key xs) k =
     (if k \<in> key ` set xs then Some (filter (\<lambda>x. key x = k) xs) else None)"
  by (simp add: groupby_def map_of_map_restrict restrict_map_def dict_keys_set)

lemma getitem_groupby:
  "getitem (groupby slot key xs) k =
     (if k \<in> key ` set xs then Inr (filter (\<lambda>x. key x = k) xs) else Inl KeyError)"
  by (simp add: getitem_def map_of_groupby)

subsection \<open>The scan for the majority and the minority class\<close>

lemma py_gt_million: "py_gt (PyFloat 15625 6) n \<longleftrightarrow> n < 1000000"
  by (simp add: py_gt_def)

lemma scan_step_inv:
  fixes f :: "'c \<Rightarrow> nat"
  assumes "(mj = None \<and> mx = 0) \<or> (\<exists>k\<in>S. mj = Some k \<and> mx = f k)"
      and "\<forall>k\<in>S. f k \<le> mx"
      and "(mn = None \<and> mc = PyFloat 15625 6 \<and> (\<forall>k\<in>S. 1000000 \<le> f k))
           \<or> (\<exists>k\<in>S. mn = Some k \<and> mc = PyInt (int (f k)) \<and> (\<forall>k'\<in>S. f k \<le> f k'))"
      and "scan_step (c, f c) (mj, mx, mn, mc) = (mj', mx', mn', mc')"
  shows "((mj' = None \<and> mx' = 0) \<or> (\<exists>k\<in>insert c S. mj' = Some k \<and> mx' = f k))
       \<and> (\<forall>k\<in>insert c S. f k \<le> mx')
       \<and> ((mn' = None \<and> mc' = PyFloat 15625 6 \<and> (\<forall>k\<in>insert c S. 1000000 \<le> f k))
           \<or> (\<exists>k\<in>insert c S. mn' = Some k \<and> mc' = PyInt (int (f k))
                 \<and> (\<forall>k'\<in>insert c S. f k \<le> f k')))"
proof (intro conjI)
  show "(mj' = None \<and> mx' = 0) \<or> (\<exists>k\<in>insert c S. mj' = Some k \<and> mx' = f k)"
    using assms(1,4) by (auto simp: scan_step_def split: if_splits)
  show "\<forall>k\<in>insert c S. f k \<le> mx'"
    using assms(2,4) by (auto simp: scan_step_def split: if_splits)
  from assms(3)
  show "(mn' = None \<and> mc' = PyFloat 15625 6 \<and> (\<forall>k\<in>insert c S. 1000000 \<le> f k))
           \<or> (\<exists>k\<in>insert c S. mn' = Some k \<and> mc' = PyInt (int (f k))
                 \<and> (\<forall>k'\<in>insert c S. f k \<le> f k'))"
  proof
    assume a: "mn = None \<and> mc = PyFloat 15625 6 \<and> (\<forall>k\<in>S. 1000000 \<le> f k)"
    show ?thesis
    proof (cases "f c < 1000000")
      case True
      with a assms(4) have "mn' = Some c" "mc' = PyInt (int (f c))"
        by (auto simp: scan_step_def py_gt_million split: if_splits)
      moreover from a True have "\<forall>k'\<in>insert c S. f c \<le> f k'" by auto
      ultimately show ?thesis by blast
    next
      case False
      with a assms(4) have "mn' = None" "mc' = PyFloat 15625 6"
        by (auto simp: scan_step_def py_gt_million split: if_splits)
      moreover from a False have "\<forall>k\<in>insert c S. 1000000 \<le> f k" by auto
      ultimately show ?thesis by blast
    qed
  next
    assume "\<exists>k\<in>S. mn = Some k \<and> mc = PyInt (int (f k)) \<and> (\<forall>k'\<in>S. f k \<le> f k')"
    then obtain k where k: "k \<in> S" "mn = Some k" "mc = PyInt (int (f k))" "\<forall>k'\<in>S. f k \<le> f k'"
      by blast
    show ?thesis
    proof (cases "f c < f k")
      case True
      with k assms(4) have "mn' = Some c" "mc' = PyInt (int (f c))"
        by (auto simp: scan_step_def py_gt_def split: if_splits)
      moreover from k True have "\<forall>k'\<in>insert c S. f c \<le> f k'" by fastforce
      ultimately show ?thesis by blast
    next
      case False
      with k assms(4) have "mn' = Some k" "mc' = PyInt (int (f k))"
        by (auto simp: scan_step_def py_gt_def split: if_splits)
      moreover from k False have "\<forall>k'\<in>insert c S. f k \<le> f k'" by auto
      ultimately show ?thesis using k(1) by blast
    qed
  qed
qed

lemma scan_fold_inv:
  fixes f :: "'c \<Rightarrow> nat"
  assumes "(mj = None \<and> mx = 0) \<or> (\<exists>k\<in>S. mj = Some k \<and> mx = f k)"
      and "\<forall>k\<in>S. f k \<le> mx"
      and "(mn = None \<and> mc = PyFloat 15625 6 \<and> (\<forall>k\<in>S. 1000000 \<le> f k))
           \<or> (\<exists>k\<in>S. mn = Some k \<and> mc = PyInt (int (f k)) \<and> (\<forall>k'\<in>S. f k \<le> f k'))"
      and "fold scan_step (map (\<lambda>k. (k, f k)) ks) (mj, mx, mn, mc) = (mj', mx', mn', mc')"
  shows "((mj' = None \<and> mx' = 0) \<or> (\<exists>k\<in>S \<union> set ks. mj' = Some k \<and> mx' = f k))
       \<and> (\<forall>k\<in>S \<union> set ks. f k \<le> mx')
       \<and> ((mn' = None \<and> mc' = PyFloat 15625 6 \<and> (\<forall>k\<in>S \<union> set ks. 1000000 \<le> f k))
           \<or> (\<exists>k\<in>S \<union> set ks. mn' = Some k \<and> mc' = PyInt (int (f k))
                 \<and> (\<forall>k'\<in>S \<union> set ks. f k \<le> f k')))"
  using assms
proof (induction ks arbitrary: mj mx mn mc S)
  case Nil
  then show ?case by simp
next
  case (Cons c ks)
  obtain mj1 mx1 mn1 mc1 where st: "scan_step (c, f c) (mj, mx, mn, mc) = (mj1, mx1, mn1, mc1)"
    by (metis prod_cases4)
  note inv = scan_step_inv [OF Cons.prems(1-3) st]
  have f: "fold scan_step (map (\<lambda>k. (k, f k)) ks) (mj1, mx1, mn1, mc1) = (mj', mx', mn', mc')"
    using Cons.prems(4) st by simp
  have "((mj' = None \<and> mx' = 0) \<or> (\<exists>k\<in>insert c S \<union> set ks. mj' = Some k \<and> mx' = f k))
       \<and> (\<forall>k\<in>insert c S \<union> set ks. f k \<le> mx')
       \<and> ((mn' = None \<and> mc' = PyFloat 15625 6 \<and> (\<forall>k\<in>insert c S \<union> set ks. 1000000 \<le> f k))
           \<or> (\<exists>k\<in>insert c S \<union> set ks. mn' = Some k \<and> mc' = PyInt (int (f k))
                 \<and> (\<forall>k'\<in>insert c S \<union> set ks. f k \<le> f k')))"
    by (rule Cons.IH [OF _ _ _ f]) (use inv in blast)+
  then show ?case by simp
qed

lemma class_extremes_inv:
  assumes "class_extremes slot targets = (mj, mx, mn, mc)"
  shows "((mj = None \<and> mx = 0) \<or> (\<exists>k\<in>set targets. mj = Some k \<and> mx = count_list targets k))
       \<and> (\<forall>k\<in>set targets. count_list targets k \<le> mx)
       \<and> ((mn = None \<and> mc = PyFloat 15625 6 \<and> (\<forall>k\<in>set targets. 1000000 \<le> count_list targets k))
           \<or> (\<exists>k\<in>set targets. mn = Some k \<and> mc = PyInt (int (count_list targets k))
                 \<and> (\<forall>k'\<in>set targets. count_list targets k \<le> count_list targets k')))"
proof -
  have "fold scan_step (map (\<lambda>k. (k, count_list targets k)) (dict_keys slot targets))
          (None, 0, None, PyFloat 15625 6) = (mj, mx, mn, mc)"
    using assms by (simp add: class_extremes_def Counter_def)
  from scan_fold_inv [where S = "{}" and f = "count_list targets", OF _ _ _ this]
  show ?thesis by (simp add: dict_keys_set)
qed

lemma majority_class_Some:
  assumes "majority_class slot targets = Some k"
  shows "k \<in> set targets \<and> (\<forall>c\<in>set targets. count_list targets c \<le> count_list targets k)"
proof -
  obtain mj mx mn mc where e: "class_extremes slot targets = (mj, mx, mn, mc)"
    by (metis prod_cases4)
  with assms have "mj = Some k" by (simp add: majority_class_def)
  with class_extremes_inv [OF e] show ?thesis by auto
qed

lemma minority_class_Some:
  assumes "minority_class slot targets = Some k"
  shows "k \<in> set targets \<and> min_count slot targets = PyInt (int (count_list targets k))
           \<and> (\<forall>c\<in>set targets. count_list targets k \<le> count_list targets c)"
proof -
  obtain mj mx mn mc where e: "class_extremes slot targets = (mj, mx, mn, mc)"
    by (metis prod_cases4)
  with assms have "mn = Some k" "min_count slot targets = mc"
    by (simp_all add: minority_class_def min_count_def)
  with class_extremes_inv [OF e] show ?thesis by auto
qed

lemma majority_class_exists:
  assumes "targets \<noteq> []"
  shows "\<exists>k. majority_class slot targets = Some k"
proof -
  obtain mj mx mn mc where e: "class_extremes slot targets = (mj, mx, mn, mc)"
    by (metis prod_cases4)
  from assms obtain c where c: "c \<in> set targets" by (cases targets) auto
  then have "0 < count_list targets c" using count_list_0_iff [of targets c] by auto
  with class_extremes_inv [OF e] c have "mj \<noteq> None" by force
  with e show ?thesis by (auto simp: majority_class_def)
qed

lemma minority_class_exists:
  assumes "c \<in> set targets" and "count_list targets c < 1000000"
  shows "\<exists>k. minority_class slot targets = Some k"
proof -
  obtain mj mx mn mc where e: "class_extremes slot targets = (mj, mx, mn, mc)"
    by (metis prod_cases4)
  from class_extremes_inv [OF e] assms have "mn \<noteq> None" by force
  with e show ?thesis by (auto simp: minority_class_def)
qed

lemma class_members_length:
  "length graphs = length targets \<Longrightarrow> length (class_members graphs targets k) = count_list targets k"
  unfolding class_members_def
proof (induction targets arbitrary: graphs)
  case Nil then show ?case by simp
next
  case (Cons t ts)
  then obtain a as where "graphs = a # as" by (cases graphs) auto
  with Cons show ?case by auto
qed

lemma class_members_mem:
  "length graphs = length targets \<Longrightarrow> k \<in> set targets \<Longrightarrow> k \<in> fst ` set (zip targets graphs)"
  by (metis map_fst_zip set_map)

lemma getitem_opt_class:
  "getitem_opt (groupby slot fst (zip targets graphs)) key =
     (case key of None \<Rightarrow> Inl KeyError
      | Some k \<Rightarrow> if k \<in> fst ` set (zip targets graphs)
                  then Inr (k, filter (\<lambda>x. fst x = k) (zip targets graphs)) else Inl KeyError)"
  by (simp add: getitem_opt_def getitem_groupby split: option.splits)

lemma balance_unfold:
  assumes "majority_class slot targets = Some majority"
      and "minority_class slot targets = Some minority"
      and "majority \<in> fst ` set (zip targets graphs)"
      and "minority \<in> fst ` set (zip targets graphs)"
      and "margins estimator g (class_members graphs targets majority) = (preds, g1)"
      and "desired_size slot targets ratio = Inr desired"
  shows "balance slot g graphs targets estimator ratio =
     paired_shuffle g1
       (class_members graphs targets minority
          @ map snd (select_majority desired preds (class_members graphs targets majority)))
       (replicate (length (class_members graphs targets minority)) minority
          @ replicate (length (select_majority desired preds
                       (class_members graphs targets majority))) majority)"
  using assms
  by (simp add: balance_def getitem_opt_class class_members_def Let_def)

lemma balance_Inr_classes:
  assumes "balance slot g graphs targets estimator ratio = Inr r"
  shows "\<exists>majority minority desired. majority_class slot targets = Some majority
           \<and> minority_class slot targets = Some minority
           \<and> majority \<in> fst ` set (zip targets graphs)
           \<and> minority \<in> fst ` set (zip targets graphs)
           \<and> desired_size slot targets ratio = Inr desired"
  using assms
  by (auto simp: balance_def getitem_opt_class Let_def split: option.splits if_splits sum.splits)

subsection \<open>Selecting the majority members\<close>

lemma slice_to_take:
  "slice_to k xs = take (if 0 \<le> k then nat k else length xs - nat (- k)) xs"
  by (simp add: slice_to_def)

lemma slice_to_length:
  "length (slice_to k xs) =
     (if 0 \<le> k then min (nat k) (length xs) else length xs - nat (- k))"
  by (auto simp: slice_to_def)

lemma sorted_take_le_drop:
  assumes "sorted xs" and "x \<in> set (take n xs)" and "y \<in> set (drop n xs)"
  shows "x \<le> y"
proof -
  have "sorted (take n xs @ drop n xs)" using assms(1) by simp
  then show ?thesis using assms(2,3) unfolding sorted_append by blast
qed

lemma select_majority_split:
  "\<exists>n. select_majority d preds gs = take n (sort (zip preds gs))
     \<and> mset (zip preds gs) - mset (select_majority d preds gs) = mset (drop n (sort (zip preds gs)))"
proof -
  let ?s = "sort (zip preds gs)"
  let ?n = "if 0 \<le> d then nat d else length ?s - nat (- d)"
  have k: "select_majority d preds gs = take ?n ?s"
    unfolding select_majority_def by (rule slice_to_take)
  have "mset (zip preds gs) = mset (take ?n ?s) + mset (drop ?n ?s)"
    by (metis append_take_drop_id mset_append mset_sort)
  then have "mset (zip preds gs) - mset (take ?n ?s) = mset (drop ?n ?s)" by simp
  with k show ?thesis by metis
qed

lemma select_majority_smallest:
  assumes "(p, a) \<in> set (select_majority d preds gs)"
      and "(q, b) \<in># mset (zip preds gs) - mset (select_majority d preds gs)"
  shows "p \<le> q"
proof -
  from select_majority_split [of d preds gs] obtain n where
    k: "select_majority d preds gs = take n (sort (zip preds gs))" and
    r: "mset (zip preds gs) - mset (select_majority d preds gs) = mset (drop n (sort (zip preds gs)))"
    by blast
  have "(p, a) \<le> (q, b)"
    by (rule sorted_take_le_drop [of "sort (zip preds gs)" _ n]) (use assms k r in auto)
  then show ?thesis by (auto simp: less_eq_prod_def)
qed



lemma margins_Some: "margins (Some df) g gs = (map abs (df gs), g)"
  by (simp add: margins_def)


lemma paired_shuffle_value:
  assumes "zip xs ys \<noteq> []"
  shows "\<exists>i1 i2. value_of (paired_shuffle g xs ys) = Inr (i1, i2)
           \<and> mset (zip i1 i2) = mset (zip xs ys)
           \<and> length i1 = length (zip xs ys) \<and> length i2 = length (zip xs ys)"
  using paired_shuffle_returns [OF assms, of g] by force

lemma paired_shuffle_value_Inr:
  assumes "value_of (paired_shuffle g xs ys) = Inr (i1, i2)"
  shows "zip xs ys \<noteq> [] \<and> mset (zip i1 i2) = mset (zip xs ys)
           \<and> length i1 = length (zip xs ys) \<and> length i2 = length (zip xs ys)"
proof -
  from assms obtain g' where "paired_shuffle g xs ys = Inr ((i1, i2), g')"
    by (cases "paired_shuffle g xs ys") auto
  then show ?thesis by (rule paired_shuffle_Inr)
qed

lemma mset_zip_components:
  assumes "mset (zip i1 i2) = mset (zip xs ys)" and "length i1 = length i2" and "length xs = length ys"
  shows "mset i1 = mset xs \<and> mset i2 = mset ys"
proof -
  have "mset i1 = image_mset fst (mset (zip i1 i2))" using assms(2) by (metis map_fst_zip mset_map)
  moreover have "mset i2 = image_mset snd (mset (zip i1 i2))" using assms(2) by (metis map_snd_zip mset_map)
  moreover have "mset xs = image_mset fst (mset (zip xs ys))" using assms(3) by (metis map_fst_zip mset_map)
  moreover have "mset ys = image_mset snd (mset (zip xs ys))" using assms(3) by (metis map_snd_zip mset_map)
  ultimately show ?thesis using assms(1) by simp
qed

lemma zip_map_replicate:
  "zip (map f xs) (replicate (length xs) c) = map (\<lambda>x. (f x, c)) xs"
  by (induction xs) auto

lemma zip_replicate_length:
  "zip xs (replicate (length xs) c) = map (\<lambda>x. (x, c)) xs"
  using zip_map_replicate [of "\<lambda>x. x" xs c] by simp

lemma balance_returns:
  assumes len: "length graphs = length targets"
      and maj: "majority_class slot targets = Some majority"
      and mino: "minority_class slot targets = Some minority"
      and des: "desired_size slot targets ratio = Inr desired"
  shows "\<exists>bg bt. value_of (balance slot g graphs targets estimator ratio) = Inr (bg, bt)
           \<and> length bg = length bt
           \<and> mset (zip bg bt) =
               mset (map (\<lambda>a. (a, minority)) (class_members graphs targets minority))
               + mset (map (\<lambda>(p, a). (a, majority))
                    (select_majority desired
                       (fst (margins estimator g (class_members graphs targets majority)))
                       (class_members graphs targets majority)))"
proof -
  let ?majs = "class_members graphs targets majority"
  let ?mins = "class_members graphs targets minority"
  obtain preds g1 where m: "margins estimator g ?majs = (preds, g1)" by (cases "margins estimator g ?majs")
  let ?kept = "select_majority desired preds ?majs"
  let ?xs = "?mins @ map snd ?kept"
  let ?ys = "replicate (length ?mins) minority @ replicate (length ?kept) majority"
  from maj have majin: "majority \<in> set targets" by (simp add: majority_class_Some)
  from mino have minin: "minority \<in> set targets" by (simp add: minority_class_Some)
  have b: "balance slot g graphs targets estimator ratio = paired_shuffle g1 ?xs ?ys"
    by (rule balance_unfold [OF maj mino class_members_mem [OF len majin]
          class_members_mem [OF len minin] m des])
  have "length ?mins = count_list targets minority" by (rule class_members_length [OF len])
  moreover have "0 < count_list targets minority" using minin count_list_0_iff [of targets minority] by auto
  ultimately have ne: "?mins \<noteq> []" by auto
  have z: "zip ?xs ?ys = map (\<lambda>a. (a, minority)) ?mins @ map (\<lambda>(p, a). (a, majority)) ?kept"
    by (simp add: zip_replicate_length zip_map_replicate split_beta)
  have zne: "zip ?xs ?ys \<noteq> []" unfolding z using ne by simp
  from paired_shuffle_value [OF zne, of g1] obtain i1 i2 where
    r: "value_of (paired_shuffle g1 ?xs ?ys) = Inr (i1, i2)"
    and ms: "mset (zip i1 i2) = mset (zip ?xs ?ys)"
    and l1: "length i1 = length (zip ?xs ?ys)" and l2: "length i2 = length (zip ?xs ?ys)"
    by blast
  show ?thesis using r ms l1 l2 unfolding b z using m by auto
qed


subsection \<open>Python numbers\<close>

lemma bit_length_Suc:
  assumes "2 ^ k \<le> n" and "n < 2 ^ Suc k"
  shows "bit_length n = Suc k"
  using assms
proof (induction k arbitrary: n)
  case 0
  then have "n = 1" by simp
  then show ?case by (simp add: bit_length.simps)
next
  case (Suc k)
  from Suc.prems have "2 ^ k \<le> n div 2" "n div 2 < 2 ^ Suc k" by auto
  from Suc.IH [OF this] Suc.prems show ?case by (subst bit_length.simps) auto
qed

lemma bit_length_eq:
  assumes "0 < k" and "2 ^ (k - 1) \<le> n" and "n < 2 ^ k"
  shows "bit_length n = k"
  using bit_length_Suc [of "k - 1" n] assms by simp

text \<open>
  The float product is rounded: \<^verbatim>\<open>int(3 * (1.0/3))\<close> is 1 and \<^verbatim>\<open>int(5 * 1.4)\<close> is 7,
  where the exact products \<open>3 * 0.333\<dots>\<close> and \<open>5 * 1.399\<dots>\<close> of the doubles truncate to 0
  and 6.
\<close>

lemma bit_length_values:
  "bit_length 3 = 2" "bit_length 5 = 3"
  "bit_length 6004799503160661 = 53" "bit_length 18014398509481983 = 54"
  "bit_length 9007199254740992 = 54"
  "bit_length 6305039478318694 = 53" "bit_length 31525197391593470 = 55"
  "bit_length 7881299347898368 = 53"
  by (rule bit_length_eq; simp)+

lemmas float_eval =
  int_of_product_def as_float_def round_double_def round_half_even_def int_of_float_def
  float_trunc_def bit_length_values Let_def


lemma int_of_product_rounds_up: "int_of_product (PyInt 5) (PyFloat 6305039478318694 (- 52)) = Inr 7"
  by (simp add: float_eval)

lemma int_of_product_ints: "int_of_product (PyInt x) (PyInt y) = Inr (x * y)"
  by (simp add: int_of_product_def)

lemma desired_size_minority:
  assumes "minority_class slot targets = Some minority"
  shows "desired_size slot targets ratio
           = int_of_product (PyInt (int (count_list targets minority))) ratio"
  using minority_class_Some [OF assms] by (simp add: desired_size_def)


lemma scenario_extremes_any:
  "class_extremes slot [1, 1, 1, 1, 0, 0 :: int] = (Some 1, 4, Some 0, PyInt 2)"
  by (simp add: class_extremes_def Counter_def dict_keys_def scan_step_def py_gt_def)

lemma count_list_single:
  "set targets \<subseteq> {c} \<Longrightarrow> count_list targets c = length targets"
  by (induction targets) auto

text \<open>The unfolding rules that evaluate the sampler on a concrete dataset.\<close>

lemmas sampler_eval =
  balance_def subsample_def groupby_def dict_keys_def getitem_opt_def getitem_def
  majority_class_def minority_class_def class_extremes_def Counter_def scan_step_def
  margins_def random_def frac_def select_majority_def slice_to_def desired_size_def
  min_count_def int_of_product_def py_gt_def paired_shuffle_def shuffle_def unzip2_def
  class_members_def Let_def

subsection \<open>The loop of subsample\<close>

lemma subsample_loop_Inr:
  assumes "0 < num_classes"
  shows "subsample_loop subsample_size num_classes class_graphs (subgraphs, subtargets) =
     Inr (subgraphs @ concat (map (\<lambda>(y, members).
              map snd (slice_to (subsample_size div int num_classes) members)) class_graphs),
          subtargets @ concat (map (\<lambda>(y, members).
              replicate (length (slice_to (subsample_size div int num_classes) members)) y) class_graphs))"
  using assms
  by (induction class_graphs arbitrary: subgraphs subtargets) (auto simp: Let_def)

lemma zip_concat_groups:
  "zip (concat (map (\<lambda>(y, members). map snd (slice_to k members)) cg))
       (concat (map (\<lambda>(y, members). replicate (length (slice_to k members)) y) cg))
   = concat (map (\<lambda>(y, members). map (\<lambda>x. (snd x, y)) (slice_to k members)) cg)"
  by (induction cg) (auto simp: zip_map_replicate)

lemma length_concat_groups:
  assumes "0 \<le> k"
  shows "length (concat (map (\<lambda>(y, members). map (\<lambda>x. (snd x, y)) (slice_to k members)) cg))
           \<le> length cg * nat k"
  using assms by (induction cg) (auto simp: slice_to_length)

lemma groupby_length: "length (groupby slot key xs) = card (key ` set xs)"
  by (simp add: groupby_def dict_keys_length)

lemma groupby_members:
  "(y, members) \<in> set (groupby slot key xs) \<Longrightarrow>
     y \<in> key ` set xs \<and> members = filter (\<lambda>x. key x = y) xs"
  by (auto simp: groupby_def dict_keys_set)

lemma slice_to_subset: "set (slice_to k xs) \<subseteq> set xs"
  by (auto simp: slice_to_def dest: in_set_takeD)

lemma in_set_zip_flip: "(a, b) \<in> set (zip xs ys) \<Longrightarrow> (b, a) \<in> set (zip ys xs)"
  by (auto simp: in_set_zip)

lemma concat_groups_subset:
  "set (concat (map (\<lambda>(y, members). map (\<lambda>x. (snd x, y)) (slice_to k members))
          (groupby slot fst (zip targets graphs))))
     \<subseteq> set (zip graphs targets)"
proof
  fix p
  assume "p \<in> set (concat (map (\<lambda>(y, members). map (\<lambda>x. (snd x, y)) (slice_to k members))
          (groupby slot fst (zip targets graphs))))"
  then obtain y members x where
    ym: "(y, members) \<in> set (groupby slot fst (zip targets graphs))"
    and x: "x \<in> set (slice_to k members)" and p: "p = (snd x, y)"
    by auto
  from groupby_members [OF ym] have "members = filter (\<lambda>x. fst x = y) (zip targets graphs)" by simp
  with x slice_to_subset [of k members] have "x \<in> set (zip targets graphs)" "fst x = y" by auto
  then have "(y, snd x) \<in> set (zip targets graphs)" by (cases x) auto
  then have "(snd x, y) \<in> set (zip graphs targets)" by (rule in_set_zip_flip)
  with p show "p \<in> set (zip graphs targets)" by simp
qed

lemma subsample_unfold:
  assumes "zip targets graphs \<noteq> []"
  shows "subsample slot g graphs targets subsample_size =
     paired_shuffle g
       (concat (map (\<lambda>(y, members).
              map snd (slice_to (subsample_size div int (card (set targets))) members))
           (groupby slot fst (zip targets graphs))))
       (concat (map (\<lambda>(y, members).
              replicate (length (slice_to (subsample_size div int (card (set targets))) members)) y)
           (groupby slot fst (zip targets graphs))))"
proof -
  from assms have "targets \<noteq> []" by auto
  then have "0 < card (set targets)" by (simp add: card_gt_0_iff)
  from subsample_loop_Inr [OF this, where class_graphs = "groupby slot fst (zip targets graphs)"
      and subsample_size = subsample_size and subgraphs = "[]" and subtargets = "[]"]
  show ?thesis by (simp add: subsample_def)
qed

lemma subsample_empty:
  assumes "zip targets graphs = []"
  shows "subsample slot g graphs targets subsample_size = Inl ValueError"
  using assms
  by (simp add: subsample_def groupby_def dict_keys_def paired_shuffle_def shuffle_def unzip2_def
        del: zip_eq_Nil_iff)

lemma div_mult_le_int:
  assumes "0 \<le> (s::int)" and "0 < n"
  shows "n * nat (s div int n) \<le> nat s"
proof -
  have "0 \<le> s div int n" using assms by (simp add: pos_imp_zdiv_nonneg_iff)
  moreover have "int n * (s div int n) \<le> s"
  proof -
    have "int n * (s div int n) + s mod int n = s" by simp
    moreover have "0 \<le> s mod int n" using assms(2) by simp
    ultimately show ?thesis by linarith
  qed
  ultimately have "int (n * nat (s div int n)) \<le> s" by simp
  then show ?thesis by linarith
qed

lemma div_ge_one:
  assumes "0 < (n::nat)" and "int n \<le> s"
  shows "1 \<le> s div int n"
proof -
  have "int n div int n \<le> s div int n" by (rule zdiv_mono1) (use assms in auto)
  moreover have "int n div int n = 1" using assms(1) by simp
  ultimately show ?thesis by simp
qed

subsection \<open>Sampling the grid and choosing the best trial\<close>

lemma choice_Inr:
  assumes "choice g seq = Inr (v, g')"
  shows "v \<in> set seq"
  using assms by (auto simp: choice_def Let_def split_beta split: if_splits)

lemma choice_returns:
  assumes "seq \<noteq> []"
  shows "\<exists>v g'. choice g seq = Inr (v, g')"
proof -
  obtain u g' where r: "random g = (u, g')" by (cases "random g")
  from assms obtain n where n: "length seq = Suc n" by (cases seq) auto
  from random_index [OF r, of n] have "nat \<lfloor>u * real (length seq)\<rfloor> < length seq"
    unfolding n .
  with r show ?thesis by (simp add: choice_def)
qed

lemma sample_params_Inr:
  assumes "sample_params g distr = Inr (params, g')"
  shows "map fst params = map fst distr
           \<and> (\<forall>(key, v) \<in> set params. \<exists>vals. (key, vals) \<in> set distr \<and> v \<in> set vals)"
  using assms
proof (induction distr arbitrary: g params)
  case Nil
  then show ?case by simp
next
  case (Cons item rest)
  obtain key vals where item: "item = (key, vals)" by (cases item)
  from Cons.prems item obtain v g1 ps where
    c: "choice g vals = Inr (v, g1)" and s: "sample_params g1 rest = Inr (ps, g')"
    and p: "params = (key, v) # ps"
    by (auto split: sum.splits)
  from Cons.IH [OF s] choice_Inr [OF c] item p show ?case by auto
qed

lemma sample_params_returns:
  assumes "\<forall>(key, vals) \<in> set distr. vals \<noteq> []"
  shows "\<exists>params g'. sample_params g distr = Inr (params, g')"
  using assms
proof (induction distr arbitrary: g)
  case Nil
  then show ?case by simp
next
  case (Cons item rest)
  obtain key vals where item: "item = (key, vals)" by (cases item)
  with Cons.prems have "vals \<noteq> []" by auto
  from choice_returns [OF this, of g] obtain v g1 where c: "choice g vals = Inr (v, g1)" by blast
  from Cons.prems have "\<forall>(key, vals) \<in> set rest. vals \<noteq> []" by auto
  from Cons.IH [OF this, of g1] obtain ps g2 where "sample_params g1 rest = Inr (ps, g2)" by blast
  with c item show ?case by simp
qed

lemma param_distr_set:
  "set (param_distr key_slot) = {(''r'', py_range 1 5), (''d'', py_range 0 6)}"
  by (auto simp: param_distr_def)

lemma param_distr_keys:
  "map fst (param_distr key_slot) = [''r'', ''d''] \<or> map fst (param_distr key_slot) = [''d'', ''r'']"
  by (simp add: param_distr_def)

lemma sampled_in_grid:
  assumes "sample_params g (param_distr key_slot) = Inr (params, g')"
  shows "kwarg params ''r'' 1 \<in> {1..<5} \<and> kwarg params ''d'' 1 \<in> {0..<6}"
proof -
  note s = sample_params_Inr [OF assms]
  from s have "set (map fst params) = set (map fst (param_distr key_slot))" by simp
  then have k: "fst ` set params = {''r'', ''d''}" by (simp add: param_distr_set)
  have "map_of params ''r'' \<noteq> None" unfolding map_of_eq_None_iff k by simp
  then obtain vr where vr: "map_of params ''r'' = Some vr" by blast
  have "map_of params ''d'' \<noteq> None" unfolding map_of_eq_None_iff k by simp
  then obtain vd where vd: "map_of params ''d'' = Some vd" by blast
  from map_of_SomeD [OF vr] s obtain vals where
    "(''r'', vals) \<in> set (param_distr key_slot)" "vr \<in> set vals" by auto
  then have r: "vr \<in> set (py_range 1 5)" by (auto simp: param_distr_set)
  from map_of_SomeD [OF vd] s obtain vals' where
    "(''d'', vals') \<in> set (param_distr key_slot)" "vd \<in> set vals'" by auto
  then have d: "vd \<in> set (py_range 0 6)" by (auto simp: param_distr_set)
  from r d vr vd show ?thesis by (auto simp: kwarg_def py_range_def)
qed

lemma eval_Inr:
  assumes "eval L g (graphs, targets, param_distr key_slot) = Inr ((score, params), g')"
  shows "kwarg params ''r'' 1 \<in> {1..<5} \<and> kwarg params ''d'' 1 \<in> {0..<6}"
proof -
  from assms obtain g1 where "sample_params g (param_distr key_slot) = Inr (params, g1)"
    by (auto simp: eval_def eval_params_def Let_def split_beta split: sum.splits)
  then show ?thesis by (rule sampled_in_grid)
qed

lemma eval_returns:
  "\<exists>t g'. eval L g (graphs, targets, param_distr key_slot) = Inr (t, g')"
proof -
  have "\<forall>(key, vals) \<in> set (param_distr key_slot). vals \<noteq> []"
    by (auto simp: param_distr_set py_range_def)
  from sample_params_returns [OF this, of g] show ?thesis
    by (auto simp: eval_def eval_params_def Let_def split_beta)
qed

lemma pool_map_Inr:
  assumes "pool_map worker_rng f k items = Inr ys"
  shows "length ys = length items
           \<and> (\<forall>y \<in> set ys. \<exists>j item g'. item \<in> set items \<and> f (worker_rng j) item = Inr (y, g'))"
  using assms
proof (induction items arbitrary: k ys)
  case Nil
  then show ?case by simp
next
  case (Cons item items)
  from Cons.prems obtain y g' ys' where
    f: "f (worker_rng k) item = Inr (y, g')" and r: "pool_map worker_rng f (Suc k) items = Inr ys'"
    and ys: "ys = y # ys'"
    by (auto split: sum.splits)
  from Cons.IH [OF r] have l: "length ys' = length items"
    and m: "\<forall>y \<in> set ys'. \<exists>j item g'. item \<in> set items \<and> f (worker_rng j) item = Inr (y, g')"
    by simp_all
  have "\<exists>j item' g'. item' \<in> set (item # items) \<and> f (worker_rng j) item' = Inr (z, g')"
    if "z \<in> set ys" for z
  proof (cases "z = y")
    case True
    with f show ?thesis by (intro exI [of _ k] exI [of _ item] exI [of _ g']) simp
  next
    case False
    with that ys have "z \<in> set ys'" by simp
    with m obtain j item' g'' where "item' \<in> set items" "f (worker_rng j) item' = Inr (z, g'')"
      by blast
    then show ?thesis by (intro exI [of _ j] exI [of _ item'] exI [of _ g'']) simp
  qed
  with l ys show ?case by simp
qed

lemma pool_map_returns:
  assumes "\<And>j item. item \<in> set items \<Longrightarrow> \<exists>y g'. f (worker_rng j) item = Inr (y, g')"
  shows "\<exists>ys. pool_map worker_rng f k items = Inr ys"
  using assms
proof (induction items arbitrary: k)
  case Nil
  then show ?case by simp
next
  case (Cons item items)
  from Cons.prems [of item k] obtain y g' where f: "f (worker_rng k) item = Inr (y, g')" by auto
  have "\<exists>ys. pool_map worker_rng f (Suc k) items = Inr ys"
    by (rule Cons.IH) (use Cons.prems in auto)
  with f show ?case by auto
qed

lemma fold_max_key:
  fixes key :: "'a \<Rightarrow> 'k::linorder"
  shows "fold (\<lambda>item best. if key best < key item then item else best) xs x \<in> set (x # xs)
     \<and> (\<forall>y \<in> set (x # xs).
          key y \<le> key (fold (\<lambda>item best. if key best < key item then item else best) xs x))"
proof (induction xs arbitrary: x)
  case Nil
  then show ?case by simp
next
  case (Cons a xs)
  let ?x' = "if key x < key a then a else x"
  from Cons.IH [of ?x'] have m: "fold (\<lambda>item best. if key best < key item then item else best) xs ?x' \<in> set (?x' # xs)"
    and g: "\<forall>y \<in> set (?x' # xs).
          key y \<le> key (fold (\<lambda>item best. if key best < key item then item else best) xs ?x')"
    by simp_all
  from g have "key ?x' \<le> key (fold (\<lambda>item best. if key best < key item then item else best) xs ?x')"
    by simp
  moreover have "key x \<le> key ?x'" "key a \<le> key ?x'" by auto
  ultimately have "key x \<le> key (fold (\<lambda>item best. if key best < key item then item else best) xs ?x')"
    "key a \<le> key (fold (\<lambda>item best. if key best < key item then item else best) xs ?x')"
    by (meson order_trans)+
  moreover from m have "fold (\<lambda>item best. if key best < key item then item else best) xs ?x' \<in> set (x # a # xs)"
    by (auto split: if_splits)
  ultimately show ?case using g by simp
qed

lemma py_max_Inr:
  fixes key :: "'a \<Rightarrow> 'k::linorder"
  assumes "py_max key xs = Inr b"
  shows "b \<in> set xs \<and> (\<forall>y \<in> set xs. key y \<le> key b)"
proof (cases xs)
  case Nil
  with assms show ?thesis by (simp add: py_max_def)
next
  case (Cons x rest)
  with assms have "b = fold (\<lambda>item best. if key best < key item then item else best) rest x"
    by (simp add: py_max_def)
  with fold_max_key [of key rest x] Cons show ?thesis by simp
qed

lemma run_trials_Inr:
  assumes "run_trials L key_slot worker_rng graphs targets n_iter = Inr scores"
      and "(score, params) \<in> set scores"
  shows "kwarg params ''r'' 1 \<in> {1..<5} \<and> kwarg params ''d'' 1 \<in> {0..<6}"
proof -
  from pool_map_Inr [OF assms(1) [unfolded run_trials_def]] assms(2)
  obtain j item g' where
    i: "item \<in> set (replicate (nat n_iter) (graphs, targets, param_distr key_slot))"
    and e: "eval L (worker_rng j) item = Inr ((score, params), g')"
    by blast
  from i have "item = (graphs, targets, param_distr key_slot)" by simp
  with e show ?thesis by (auto dest: eval_Inr)
qed

lemma run_trials_returns:
  "\<exists>scores. run_trials L key_slot worker_rng graphs targets n_iter = Inr scores
      \<and> length scores = nat n_iter"
proof -
  have "\<exists>ys. pool_map worker_rng (eval L) 0
          (replicate (nat n_iter) (graphs, targets, param_distr key_slot)) = Inr ys"
    by (rule pool_map_returns) (use eval_returns in auto)
  then obtain ys where
    r: "pool_map worker_rng (eval L) 0
          (replicate (nat n_iter) (graphs, targets, param_distr key_slot)) = Inr ys" by blast
  from pool_map_Inr [OF r] r show ?thesis by (simp add: run_trials_def)
qed

text \<open>The unfolding rules that evaluate the estimator on concrete data.\<close>

lemmas search_eval =
  model_selection_rand_def search_data_def run_trials_def eval_def eval_params_def
  param_distr_def py_range_def choice_def random_def frac_def cross_val_score_def
  transform_def decision_function_def np_mean_def EdenEstimator_def kwarg_def py_max_def
  trial_key_def fit_def Let_def

section \<open>The claims\<close>

subsection \<open>balance keeps the majority members of smallest margin\<close>

text \<open>
  Claim C1: with a margin estimator supplied, \<open>balance\<close> keeps the majority-class
  members of smallest absolute decision-function value. On a dataset with as many
  graphs as labels whose majority and minority class the scan finds, \<open>balance\<close>
  raises the error of the desired size if computing that raises one (a float product
  that overflows) and returns otherwise; the returned (graph, label) pairs are the
  minority members together with the kept majority members; and every kept
  (margin, graph) pair has a margin smaller than or equal to that of every majority
  pair left out.
\<close>

theorem balance_keeps_smallest_margins:
  assumes len: "length graphs = length targets"
      and maj: "majority_class slot targets = Some majority"
      and mino: "minority_class slot targets = Some minority"
  shows "case desired_size slot targets ratio of
           Inl e \<Rightarrow> balance slot g graphs targets (Some decide) ratio = Inl e
         | Inr desired \<Rightarrow>
            (\<exists>bal_graphs bal_targets.
               value_of (balance slot g graphs targets (Some decide) ratio)
                 = Inr (bal_graphs, bal_targets)
             \<and> (let maj_graphs = class_members graphs targets majority;
                    preds = map abs (decide maj_graphs);
                    kept = select_majority desired preds maj_graphs
                in mset (zip bal_graphs bal_targets) =
                     mset (map (\<lambda>a. (a, minority)) (class_members graphs targets minority))
                     + mset (map (\<lambda>(p, a). (a, majority)) kept)
                 \<and> (\<forall>(p, a) \<in> set kept.
                       \<forall>(q, b) \<in># mset (zip preds maj_graphs) - mset kept. p \<le> q)))"
proof (cases "desired_size slot targets ratio")
  case (Inl e)
  then show ?thesis by (simp add: balance_def)
next
  case (Inr desired)
  from balance_returns [OF len maj mino Inr, of g "Some decide"]
  obtain bg bt where
    r: "value_of (balance slot g graphs targets (Some decide) ratio) = Inr (bg, bt)"
    and m: "mset (zip bg bt) =
               mset (map (\<lambda>a. (a, minority)) (class_members graphs targets minority))
               + mset (map (\<lambda>(p, a). (a, majority))
                    (select_majority desired
                       (map abs (decide (class_members graphs targets majority)))
                       (class_members graphs targets majority)))"
    by (auto simp: margins_Some)
  show ?thesis
    using r m Inr by (auto simp: Let_def dest: select_majority_smallest)
qed

theorem balance_keeps_smallest_margins_witness:
  "majority_class nat [1, 1, 1, 1, 0, 0 :: int] = Some 1
   \<and> minority_class nat [1, 1, 1, 1, 0, 0 :: int] = Some 0
   \<and> desired_size nat [1, 1, 1, 1, 0, 0 :: int] (PyInt 1) = Inr 2
   \<and> select_majority 2 [2, 1, 0, 1] [10, 11, 12, 13 :: nat] = [(0, 12), (1, 11)]
   \<and> mset (zip [2, 1, 0, 1] [10, 11, 12, 13 :: nat]) - mset [(0 :: real, 12), (1, 11)]
       = {#(1, 13), (2, 10)#}
   \<and> (\<exists>bal_graphs bal_targets.
         value_of (balance nat rng1 [10, 11, 12, 13, 14, 15 :: nat] [1, 1, 1, 1, 0, 0 :: int]
                     (Some (map (\<lambda>a. real a - 12))) (PyInt 1)) = Inr (bal_graphs, bal_targets)
       \<and> mset (zip bal_graphs bal_targets) = {#(14, 0), (15, 0), (12, 1), (11, 1)#})"
proof -
  have maj: "majority_class nat [1, 1, 1, 1, 0, 0 :: int] = Some 1"
    and mino: "minority_class nat [1, 1, 1, 1, 0, 0 :: int] = Some 0"
    and d: "desired_size nat [1, 1, 1, 1, 0, 0 :: int] (PyInt 1) = Inr 2"
    by (simp_all add: majority_class_def minority_class_def desired_size_def min_count_def
          int_of_product_ints scenario_extremes_any)
  have len: "length [10, 11, 12, 13, 14, 15 :: nat] = length [1, 1, 1, 1, 0, 0 :: int]" by simp
  have k: "select_majority 2 [2, 1, 0, 1] [10, 11, 12, 13 :: nat] = [(0, 12), (1, 11)]"
    by (simp add: select_majority_def slice_to_def)
  have cm: "class_members [10, 11, 12, 13, 14, 15 :: nat] [1, 1, 1, 1, 0, 0 :: int] 1 = [10, 11, 12, 13]"
       "class_members [10, 11, 12, 13, 14, 15 :: nat] [1, 1, 1, 1, 0, 0 :: int] 0 = [14, 15]"
    by (simp_all add: class_members_def)
  show ?thesis
    using balance_keeps_smallest_margins [OF len maj mino, where ratio = "PyInt 1" and g = rng1
        and decide = "map (\<lambda>a. real a - 12)"]
    by (simp add: maj mino d k cm Let_def)
qed

subsection \<open>The class counts of the balanced dataset\<close>




subsection \<open>subsample\<close>

text \<open>
  Claim C3, as amended: for a subsample size that is not negative, whenever
  \<open>subsample\<close> returns, its output is a permutation of the concatenation of the
  class groups, each truncated to \<open>subsample_size div num_classes\<close> items in encounter
  order; the two output lists have the same length, at most \<open>subsample_size\<close>; every
  output label occurs in the input, and every output (graph, label) pair is a pair of
  the input. It returns whenever the dataset is not empty, has as many graphs as
  labels, and \<open>subsample_size\<close> is at least the number of classes.
\<close>

theorem subsample_stratified:
  assumes size: "0 \<le> subsample_size"
  shows "(value_of (subsample slot g graphs targets subsample_size) = Inr (subgraphs, subtargets)
          \<longrightarrow> mset (zip subgraphs subtargets) =
                mset (concat (map (\<lambda>(y, members). map (\<lambda>x. (snd x, y))
                          (slice_to (subsample_size div int (card (set targets))) members))
                       (groupby slot fst (zip targets graphs))))
              \<and> length subgraphs = length subtargets
              \<and> int (length subgraphs) \<le> subsample_size
              \<and> set subtargets \<subseteq> set targets
              \<and> set (zip subgraphs subtargets) \<subseteq> set (zip graphs targets))
       \<and> (graphs \<noteq> [] \<and> length graphs = length targets \<and> int (card (set targets)) \<le> subsample_size
          \<longrightarrow> (\<exists>gs ts. value_of (subsample slot g graphs targets subsample_size) = Inr (gs, ts)))"
proof (intro conjI impI)
  let ?k = "subsample_size div int (card (set targets))"
  let ?cg = "groupby slot fst (zip targets graphs)"
  let ?xs = "concat (map (\<lambda>(y, members). map snd (slice_to ?k members)) ?cg)"
  let ?ys = "concat (map (\<lambda>(y, members). replicate (length (slice_to ?k members)) y) ?cg)"
  let ?ps = "concat (map (\<lambda>(y, members). map (\<lambda>x. (snd x, y)) (slice_to ?k members)) ?cg)"
  have z: "zip ?xs ?ys = ?ps" by (rule zip_concat_groups)
  {
    assume r: "value_of (subsample slot g graphs targets subsample_size) = Inr (subgraphs, subtargets)"
    have ne: "zip targets graphs \<noteq> []"
    proof
      assume "zip targets graphs = []"
      from subsample_empty [OF this] r show False by simp
    qed
    then have tne: "targets \<noteq> []" by auto
    then have n: "0 < card (set targets)" by (simp add: card_gt_0_iff)
    from r have "value_of (paired_shuffle g ?xs ?ys) = Inr (subgraphs, subtargets)"
      unfolding subsample_unfold [OF ne] .
    from paired_shuffle_value_Inr [OF this]
    have m: "mset (zip subgraphs subtargets) = mset ?ps"
      and l1: "length subgraphs = length ?ps" and l2: "length subtargets = length ?ps"
      unfolding z by simp_all
    show "mset (zip subgraphs subtargets) = mset ?ps" by (rule m)
    show l: "length subgraphs = length subtargets" using l1 l2 by simp
    have k0: "0 \<le> ?k" using size n by (simp add: pos_imp_zdiv_nonneg_iff)
    have "fst ` set (zip targets graphs) \<subseteq> set targets" by (auto dest: set_zip_leftD)
    then have "card (fst ` set (zip targets graphs)) \<le> card (set targets)"
      by (simp add: card_mono)
    then have "length ?cg \<le> card (set targets)" by (simp add: groupby_length)
    then have "length ?cg * nat ?k \<le> card (set targets) * nat ?k" by simp
    also have "\<dots> \<le> nat subsample_size" by (rule div_mult_le_int [OF size n])
    finally have "length ?ps \<le> nat subsample_size"
      using length_concat_groups [OF k0, of ?cg] by linarith
    then show "int (length subgraphs) \<le> subsample_size" using l1 size by linarith
    have s: "set (zip subgraphs subtargets) = set ?ps" using m by (metis set_mset_mset)
    with concat_groups_subset [of ?k slot targets graphs]
    show sub: "set (zip subgraphs subtargets) \<subseteq> set (zip graphs targets)" by simp
    have "set subtargets = snd ` set (zip subgraphs subtargets)"
      using l by (metis map_snd_zip set_map)
    also have "\<dots> \<subseteq> snd ` set (zip graphs targets)" using sub by blast
    also have "\<dots> \<subseteq> set targets" by (auto dest: set_zip_rightD)
    finally show "set subtargets \<subseteq> set targets" .
  }
  {
    assume h: "graphs \<noteq> [] \<and> length graphs = length targets \<and> int (card (set targets)) \<le> subsample_size"
    then have ne: "zip targets graphs \<noteq> []" by (cases graphs; cases targets) auto
    then have n: "0 < card (set targets)" by (auto simp: card_gt_0_iff)
    have k1: "1 \<le> ?k" by (rule div_ge_one [OF n]) (use h in simp)
    from ne obtain x where x: "x \<in> set (zip targets graphs)" by (cases "zip targets graphs") auto
    let ?members = "filter (\<lambda>z. fst z = fst x) (zip targets graphs)"
    have y: "(fst x, ?members) \<in> set ?cg"
      using x by (auto simp: groupby_def dict_keys_set)
    from x have "?members \<noteq> []" by (auto simp: filter_empty_conv)
    with k1 have "slice_to ?k ?members \<noteq> []" by (auto simp: slice_to_def)
    with y have "?ps \<noteq> []" by force
    then have "zip ?xs ?ys \<noteq> []" unfolding z .
    from paired_shuffle_value [OF this, of g]
    show "\<exists>gs ts. value_of (subsample slot g graphs targets subsample_size) = Inr (gs, ts)"
      unfolding subsample_unfold [OF ne] by blast
  }
qed

theorem subsample_stratified_witness:
  "(0 :: int) \<le> 5
   \<and> value_of (subsample nat rng1 [10, 11, 12, 13, 14 :: nat] [1, 0, 1, 0, 0 :: int] 5)
       = Inr ([12, 11, 10, 13], [1, 0, 1, 0])
   \<and> mset (zip [12, 11, 10, 13 :: nat] [1, 0, 1, 0 :: int])
       = mset (concat (map (\<lambda>(y, members). map (\<lambda>x. (snd x, y))
                          (slice_to (5 div int (card (set [1, 0, 1, 0, 0 :: int]))) members))
                       (groupby nat fst (zip [1, 0, 1, 0, 0 :: int] [10, 11, 12, 13, 14 :: nat]))))
   \<and> int (length [12, 11, 10, 13 :: nat]) \<le> 5
   \<and> set [1, 0, 1, 0 :: int] \<subseteq> set [1, 0, 1, 0, 0 :: int]"
proof -
  have s: "(0 :: int) \<le> 5" by simp
  have r: "value_of (subsample nat rng1 [10, 11, 12, 13, 14 :: nat] [1, 0, 1, 0, 0 :: int] 5)
       = Inr ([12, 11, 10, 13], [1, 0, 1, 0])"
    by (simp add: sampler_eval rng1_def card_insert_if)
  from subsample_stratified [OF s, of nat rng1 "[10, 11, 12, 13, 14 :: nat]" "[1, 0, 1, 0, 0 :: int]"
      "[12, 11, 10, 13]" "[1, 0, 1, 0]"] r
  have "mset (zip [12, 11, 10, 13 :: nat] [1, 0, 1, 0 :: int])
       = mset (concat (map (\<lambda>(y, members). map (\<lambda>x. (snd x, y))
                          (slice_to (5 div int (card (set [1, 0, 1, 0, 0 :: int]))) members))
                       (groupby nat fst (zip [1, 0, 1, 0, 0 :: int] [10, 11, 12, 13, 14 :: nat]))))
   \<and> int (length [12, 11, 10, 13 :: nat]) \<le> 5
   \<and> set [1, 0, 1, 0 :: int] \<subseteq> set [1, 0, 1, 0, 0 :: int]"
    by blast
  with s r show ?thesis by blast
qed

text \<open>
  The claim as stated, for every subsample size, fails on a negative one: the slice
  \<^verbatim>\<open>[:-1]\<close> drops the last member of the class, and two items are more than \<open>- 1\<close>.
\<close>

theorem subsample_stratified_counterexample:
  "value_of (subsample nat rng1 [10, 11, 12 :: nat] [1, 1, 1 :: int] (- 1)) = Inr ([11, 10], [1, 1])
   \<and> \<not> int (length [11, 10 :: nat]) \<le> - 1"
  by (simp add: sampler_eval rng1_def)

subsection \<open>paired_shuffle on empty sequences\<close>

text \<open>
  Claim C5: for every pair of equal-length sequences, \<open>paired_shuffle\<close> returns two new
  sequences holding the same (graph, label) pairs in another order. For non-empty
  sequences this is \<open>paired_shuffle_returns\<close>. Two empty sequences are of equal length
  too, and there the code does not return: the shuffled list of pairs is empty,
  \<^verbatim>\<open>unzip\<close> yields the empty tuple, and unpacking it into \<^verbatim>\<open>i1, i2\<close> raises
  \<^verbatim>\<open>ValueError\<close>.
\<close>

theorem paired_shuffle_empty_raises:
  "paired_shuffle g ([] :: 'a list) ([] :: 'b list) = Inl ValueError"
  by (simp add: paired_shuffle_def shuffle_def unzip2_def)

subsection \<open>paired_shuffle on sequences of different lengths\<close>

text \<open>
  Claim C10, as amended: given two sequences of different lengths whose shorter one is
  not empty, \<open>paired_shuffle\<close> does not fail. It truncates to the shorter length: the two
  sequences it returns have the minimum of the two input lengths, and their pairs are
  the pairs of the aligned prefixes, in another order. (The theorem needs the two
  sequences only to be non-empty.)
\<close>

theorem paired_shuffle_truncates:
  assumes "xs \<noteq> []" and "ys \<noteq> []"
  shows "\<exists>i1 i2. value_of (paired_shuffle g xs ys) = Inr (i1, i2)
           \<and> length i1 = min (length xs) (length ys)
           \<and> length i2 = min (length xs) (length ys)
           \<and> mset (zip i1 i2)
               = mset (zip (take (min (length xs) (length ys)) xs)
                           (take (min (length xs) (length ys)) ys))"
proof -
  from assms have ne: "zip xs ys \<noteq> []" by simp
  have z: "zip (take (min (length xs) (length ys)) xs) (take (min (length xs) (length ys)) ys)
             = zip xs ys"
    by (simp add: take_zip [symmetric])
  from paired_shuffle_value [OF ne, of g] show ?thesis unfolding z by auto
qed

theorem paired_shuffle_truncates_witness:
  "[10, 11, 12 :: nat] \<noteq> [] \<and> [1, 2 :: int] \<noteq> []
   \<and> value_of (paired_shuffle rng1 [10, 11, 12 :: nat] [1, 2 :: int]) = Inr ([11, 10], [2, 1])
   \<and> length [11, 10 :: nat] = min (length [10, 11, 12 :: nat]) (length [1, 2 :: int])
   \<and> mset (zip [11, 10 :: nat] [2, 1 :: int]) = mset (zip [10, 11 :: nat] [1, 2 :: int])"
proof -
  have a: "[10, 11, 12 :: nat] \<noteq> []" and b: "[1, 2 :: int] \<noteq> []" by simp_all
  have r: "value_of (paired_shuffle rng1 [10, 11, 12 :: nat] [1, 2 :: int]) = Inr ([11, 10], [2, 1])"
    by (simp add: paired_shuffle_def shuffle_def random_def frac_def rng1_def unzip2_def Let_def)
  from paired_shuffle_truncates [OF a b, of rng1] r
  have "length [11, 10 :: nat] = min (length [10, 11, 12 :: nat]) (length [1, 2 :: int])
     \<and> mset (zip [11, 10 :: nat] [2, 1 :: int]) = mset (zip [10, 11 :: nat] [1, 2 :: int])"
    by simp
  with a b r show ?thesis by blast
qed

text \<open>
  The claim as stated, for every two sequences of different lengths, fails when the
  shorter one is empty: one graph and no label zip to the empty list, and the call
  raises \<^verbatim>\<open>ValueError\<close>.
\<close>

theorem paired_shuffle_truncates_counterexample:
  "paired_shuffle rng1 [10 :: nat] ([] :: int list) = Inl ValueError"
  by (simp add: paired_shuffle_def shuffle_def unzip2_def)

subsection \<open>balance on a single class\<close>

text \<open>
  Claim C8, as amended: on a dataset whose labels are all the same class (not empty,
  fewer than a million items, as many graphs as labels) \<open>balance\<close> raises no
  configuration error: whenever the desired size \<^verbatim>\<open>int(n * ratio)\<close> can be computed, as
  it can for every int ratio, the call returns a result.
\<close>

theorem balance_single_class:
  assumes single: "set targets = {c}"
      and len: "length graphs = length targets"
      and small: "length targets < 1000000"
      and des: "int_of_product (PyInt (int (length targets))) ratio = Inr desired"
  shows "\<exists>bal_graphs bal_targets.
           value_of (balance slot g graphs targets estimator ratio) = Inr (bal_graphs, bal_targets)"
proof -
  from single have ne: "targets \<noteq> []" by auto
  have sub: "set targets \<subseteq> {c}" using single by simp
  have cnt: "count_list targets c = length targets" by (rule count_list_single [OF sub])
  from majority_class_exists [OF ne, of slot] obtain k where k: "majority_class slot targets = Some k" by blast
  with majority_class_Some [OF k] single have maj: "majority_class slot targets = Some c" by auto
  have "c \<in> set targets" using single by simp
  moreover have "count_list targets c < 1000000" using cnt small by simp
  ultimately obtain k' where k': "minority_class slot targets = Some k'"
    using minority_class_exists [of c targets slot] by blast
  with minority_class_Some [OF k'] single have mino: "minority_class slot targets = Some c" by auto
  have d: "desired_size slot targets ratio = Inr desired"
    using desired_size_minority [OF mino, of ratio] cnt des by simp
  from balance_returns [OF len maj mino d, of g estimator] show ?thesis by blast
qed

theorem balance_single_class_witness:
  "set [1, 1, 1 :: int] = {1}
   \<and> length [10, 11, 12 :: nat] = length [1, 1, 1 :: int]
   \<and> length [1, 1, 1 :: int] < 1000000
   \<and> int_of_product (PyInt (int (length [1, 1, 1 :: int]))) (PyInt 2) = Inr 6
   \<and> (\<exists>bal_graphs bal_targets.
         value_of (balance nat rng0 [10, 11, 12 :: nat] [1, 1, 1 :: int] None (PyInt 2))
           = Inr (bal_graphs, bal_targets))"
proof -
  have s: "set [1, 1, 1 :: int] = {1}" by simp
  have l: "length [10, 11, 12 :: nat] = length [1, 1, 1 :: int]" by simp
  have b: "length [1, 1, 1 :: int] < 1000000" by simp
  have d: "int_of_product (PyInt (int (length [1, 1, 1 :: int]))) (PyInt 2) = Inr 6"
    by (simp add: int_of_product_ints)
  from balance_single_class [OF s l b d, of nat rng0 None]
  have "\<exists>bal_graphs bal_targets.
         value_of (balance nat rng0 [10, 11, 12 :: nat] [1, 1, 1 :: int] None (PyInt 2))
           = Inr (bal_graphs, bal_targets)" .
  with s l b d show ?thesis by blast
qed

text \<open>The claim as stated, that the call raises an error, fails on three graphs of class 1.\<close>

theorem balance_single_class_counterexample:
  "value_of (balance nat rng1 [10, 11, 12 :: nat] [1, 1, 1 :: int] None (PyInt 2))
     = Inr ([11, 10, 12, 11, 10, 12], [1, 1, 1, 1, 1, 1])"
  by (simp add: sampler_eval rng1_def)

subsection \<open>balance on tied class counts\<close>

text \<open>
  Claim C9: \<open>balance\<close> keeps the minority class as it is, so the minority-class count
  of the output equals that of the input. When the majority and the minority class
  differ this follows from \<open>balance_target_counts\<close>. When all class counts are equal, both
  strict comparisons of the scan pick the first key, here class 0 for both roles:
  the output holds the two graphs of class 0 twice, so its count of the minority label
  is 4 where the input has 2, and class 1 is gone.
\<close>

theorem balance_tie_duplicates_minority:
  "majority_class nat [0, 0, 1, 1 :: int] = Some 0
   \<and> minority_class nat [0, 0, 1, 1 :: int] = Some 0
   \<and> value_of (balance nat rng1 [10, 11, 12, 13 :: nat] [0, 0, 1, 1 :: int] None (PyInt 1))
       = Inr ([10, 11, 11, 10], [0, 0, 0, 0])
   \<and> count_list [0, 0, 0, 0 :: int] 0 = 4
   \<and> count_list [0, 0, 1, 1 :: int] 0 = 2"
  by (simp add: sampler_eval rng1_def)

subsection \<open>model_selection_rand\<close>

text \<open>
  Claim C4: \<open>model_selection_rand\<close> samples the parameters of every trial from the grid
  \<open>r \<in> [1, 5)\<close>, \<open>d \<in> [0, 6)\<close>, picks the trial that is greatest in the order of the
  \<open>(score, params)\<close> tuples, that is of greatest mean cross-validation score with ties
  broken by the parameters, and returns a newly constructed estimator with the
  parameters of that trial, the defaults elsewhere and an unfit classifier. So
  whenever it returns an estimator, \<open>1 \<le> r < 5\<close> and \<open>0 \<le> d < 6\<close>. It returns one
  whenever \<open>n_iter\<close> is positive and no subsampling is asked for.
\<close>

theorem model_selection_rand_in_grid:
  "(value_of (model_selection_rand L slot key_slot worker_rng g self graphs targets n_iter
                subsample_size) = Inr best
    \<longrightarrow> 1 \<le> self_r best \<and> self_r best < 5 \<and> 0 \<le> self_d best \<and> self_d best < 6
        \<and> best = EdenEstimator L (self_r best) (self_d best) (- 1) True False 200 (PyInt 2)
        \<and> self_model best = SGDClassifier L (- 1)
        \<and> (\<exists>graphs' targets' scores score params.
              value_of (search_data slot g graphs targets subsample_size) = Inr (graphs', targets')
            \<and> run_trials L key_slot worker_rng graphs' targets' n_iter = Inr scores
            \<and> (score, params) \<in> set scores
            \<and> self_r best = kwarg params ''r'' 1 \<and> self_d best = kwarg params ''d'' 1
            \<and> (\<forall>t \<in> set scores. trial_key t \<le> (score, self_d best, self_r best))))
   \<and> (0 < n_iter \<and> (subsample_size = None \<or> subsample_size = Some 0)
    \<longrightarrow> (\<exists>best. value_of (model_selection_rand L slot key_slot worker_rng g self graphs targets
                          n_iter subsample_size) = Inr best))"
proof (rule conjI; rule impI)
  assume r: "value_of (model_selection_rand L slot key_slot worker_rng g self graphs targets n_iter
                subsample_size) = Inr best"
  then obtain gr tg g' scores b where
    d: "search_data slot g graphs targets subsample_size = Inr ((gr, tg), g')"
    and t: "run_trials L key_slot worker_rng gr tg n_iter = Inr scores"
    and m: "py_max trial_key scores = Inr b"
    and best: "best = EdenEstimator L (kwarg (snd b) ''r'' 1) (kwarg (snd b) ''d'' 1)
                        (- 1) True False 200 (PyInt 2)"
    by (auto simp: model_selection_rand_def Let_def split: sum.splits)
  obtain score params where b: "b = (score, params)" by (cases b)
  from py_max_Inr [OF m] b have mem: "(score, params) \<in> set scores"
    and mx: "\<forall>t \<in> set scores. trial_key t \<le> trial_key (score, params)" by simp_all
  from best b have rd: "self_r best = kwarg params ''r'' 1" "self_d best = kwarg params ''d'' 1"
    by (simp_all add: EdenEstimator_def)
  from run_trials_Inr [OF t mem] rd
  have grid: "1 \<le> self_r best \<and> self_r best < 5 \<and> 0 \<le> self_d best \<and> self_d best < 6" by simp
  have e: "best = EdenEstimator L (self_r best) (self_d best) (- 1) True False 200 (PyInt 2)"
    using best b rd by simp
  have um: "self_model best = SGDClassifier L (- 1)" using best by (simp add: EdenEstimator_def)
  have k: "trial_key (score, params) = (score, self_d best, self_r best)"
    using rd by (simp add: trial_key_def)
  have "\<exists>graphs' targets' scores score params.
              value_of (search_data slot g graphs targets subsample_size) = Inr (graphs', targets')
            \<and> run_trials L key_slot worker_rng graphs' targets' n_iter = Inr scores
            \<and> (score, params) \<in> set scores
            \<and> self_r best = kwarg params ''r'' 1 \<and> self_d best = kwarg params ''d'' 1
            \<and> (\<forall>t \<in> set scores. trial_key t \<le> (score, self_d best, self_r best))"
    using d t mem rd mx unfolding k
    by (intro exI [of _ gr] exI [of _ tg] exI [of _ scores] exI [of _ score] exI [of _ params]) simp
  with grid e um show "1 \<le> self_r best \<and> self_r best < 5 \<and> 0 \<le> self_d best \<and> self_d best < 6
        \<and> best = EdenEstimator L (self_r best) (self_d best) (- 1) True False 200 (PyInt 2)
        \<and> self_model best = SGDClassifier L (- 1)
        \<and> (\<exists>graphs' targets' scores score params.
              value_of (search_data slot g graphs targets subsample_size) = Inr (graphs', targets')
            \<and> run_trials L key_slot worker_rng graphs' targets' n_iter = Inr scores
            \<and> (score, params) \<in> set scores
            \<and> self_r best = kwarg params ''r'' 1 \<and> self_d best = kwarg params ''d'' 1
            \<and> (\<forall>t \<in> set scores. trial_key t \<le> (score, self_d best, self_r best)))"
    by blast
next
  assume h: "0 < n_iter \<and> (subsample_size = None \<or> subsample_size = Some 0)"
  then have d: "search_data slot g graphs targets subsample_size = Inr ((graphs, targets), g)"
    by (auto simp: search_data_def)
  from run_trials_returns [of L key_slot worker_rng graphs targets n_iter] obtain scores where
    t: "run_trials L key_slot worker_rng graphs targets n_iter = Inr scores"
    and l: "length scores = nat n_iter" by blast
  from l h obtain x rest where "scores = x # rest" by (cases scores) auto
  then have "\<exists>b. py_max trial_key scores = Inr b" by (simp add: py_max_def)
  then obtain b where m: "py_max trial_key scores = Inr b" by blast
  show "\<exists>best. value_of (model_selection_rand L slot key_slot worker_rng g self graphs targets
                          n_iter subsample_size) = Inr best"
    using d t m by (simp add: model_selection_rand_def Let_def)
qed

theorem model_selection_rand_in_grid_witness:
  "value_of (model_selection_rand toy_libs nat (\<lambda>_. 0) toy_workers rng1
               (EdenEstimator toy_libs 1 1 (- 1) True False 200 (PyInt 2))
               [10, 11, 12, 13] [1, 1, 0, 0] 3 None)
     = Inr (EdenEstimator toy_libs 3 0 (- 1) True False 200 (PyInt 2))
   \<and> run_trials toy_libs (\<lambda>_. 0) toy_workers [10, 11, 12, 13] [1, 1, 0, 0] 3
     = Inr [(- 10, [(''r'', 1), (''d'', 3)]), (- 10, [(''r'', 2), (''d'', 4)]),
            (10, [(''r'', 3), (''d'', 0)])]
   \<and> 1 \<le> self_r (EdenEstimator toy_libs 3 0 (- 1) True False 200 (PyInt 2))
   \<and> self_r (EdenEstimator toy_libs 3 0 (- 1) True False 200 (PyInt 2)) < 5
   \<and> 0 \<le> self_d (EdenEstimator toy_libs 3 0 (- 1) True False 200 (PyInt 2))
   \<and> self_d (EdenEstimator toy_libs 3 0 (- 1) True False 200 (PyInt 2)) < 6"
proof -
  have t: "run_trials toy_libs (\<lambda>_. 0) toy_workers [10, 11, 12, 13] [1, 1, 0, 0] 3
     = Inr [(- 10, [(''r'', 1), (''d'', 3)]), (- 10, [(''r'', 2), (''d'', 4)]),
            (10, [(''r'', 3), (''d'', 0)])]"
    by (simp add: search_eval toy_libs_def toy_workers_def eval_nat_numeral)
  have r: "value_of (model_selection_rand toy_libs nat (\<lambda>_. 0) toy_workers rng1
               (EdenEstimator toy_libs 1 1 (- 1) True False 200 (PyInt 2))
               [10, 11, 12, 13] [1, 1, 0, 0] 3 None)
     = Inr (EdenEstimator toy_libs 3 0 (- 1) True False 200 (PyInt 2))"
    unfolding model_selection_rand_def search_data_def
    by (simp add: t) (simp add: py_max_def trial_key_def kwarg_def EdenEstimator_def)
  from model_selection_rand_in_grid [of toy_libs nat "\<lambda>_. 0" toy_workers rng1
      "EdenEstimator toy_libs 1 1 (- 1) True False 200 (PyInt 2)" "[10, 11, 12, 13]" "[1, 1, 0, 0]" 3 None
      "EdenEstimator toy_libs 3 0 (- 1) True False 200 (PyInt 2)"] r
  have "1 \<le> self_r (EdenEstimator toy_libs 3 0 (- 1) True False 200 (PyInt 2))
   \<and> self_r (EdenEstimator toy_libs 3 0 (- 1) True False 200 (PyInt 2)) < 5
   \<and> 0 \<le> self_d (EdenEstimator toy_libs 3 0 (- 1) True False 200 (PyInt 2))
   \<and> self_d (EdenEstimator toy_libs 3 0 (- 1) True False 200 (PyInt 2)) < 6"
    by blast
  with t r show ?thesis by blast
qed

subsection \<open>fit\<close>

text \<open>
  Claim C6: \<open>fit\<close> with balancing disabled vectorises the raw dataset and trains the
  classifier on it, without touching the generator. With balancing enabled it balances
  the dataset, vectorises the balanced graphs and trains on them; the dataset is
  balanced at random when \<open>randomize\<close> is set, and otherwise with the margins of the
  estimator itself after its classifier has been trained on a subsample. An error of
  \<open>subsample\<close> or \<open>balance\<close> is passed on. In every case only the classifier of the
  estimator changes.
\<close>

theorem fit_pipeline:
  "(\<not> self_balance self \<longrightarrow>
      fit L slot g self graphs targets randomize
        = Inr (self\<lparr>self_model := sk_fit L (self_model self) (transform L self graphs) targets\<rparr>, g))
   \<and> (self_balance self \<and> randomize \<longrightarrow>
      fit L slot g self graphs targets randomize
        = (case balance slot g graphs targets None (self_ratio self) of
             Inl e \<Rightarrow> Inl e
           | Inr ((bal_graphs, bal_targets), g') \<Rightarrow>
               Inr (self\<lparr>self_model :=
                      sk_fit L (self_model self) (transform L self bal_graphs) bal_targets\<rparr>, g')))
   \<and> (self_balance self \<and> \<not> randomize \<longrightarrow>
      fit L slot g self graphs targets randomize
        = (case subsample slot g graphs targets (self_subsample_size self) of
             Inl e \<Rightarrow> Inl e
           | Inr ((samp_graphs, samp_targets), g1) \<Rightarrow>
               (let boot = self\<lparr>self_model :=
                      sk_fit L (self_model self) (transform L self samp_graphs) samp_targets\<rparr>
                in case balance slot g1 graphs targets (Some (decision_function L boot))
                          (self_ratio self) of
                     Inl e \<Rightarrow> Inl e
                   | Inr ((bal_graphs, bal_targets), g2) \<Rightarrow>
                       Inr (boot\<lparr>self_model :=
                              sk_fit L (self_model boot) (transform L boot bal_graphs)
                                bal_targets\<rparr>, g2))))
   \<and> (value_of (fit L slot g self graphs targets randomize) = Inr trained \<longrightarrow>
        trained\<lparr>self_model := self_model self\<rparr> = self)"
proof (intro conjI impI)
  assume "\<not> self_balance self"
  then show "fit L slot g self graphs targets randomize
        = Inr (self\<lparr>self_model := sk_fit L (self_model self) (transform L self graphs) targets\<rparr>, g)"
    by (simp add: fit_def)
next
  assume "self_balance self \<and> randomize"
  then show "fit L slot g self graphs targets randomize
        = (case balance slot g graphs targets None (self_ratio self) of
             Inl e \<Rightarrow> Inl e
           | Inr ((bal_graphs, bal_targets), g') \<Rightarrow>
               Inr (self\<lparr>self_model :=
                      sk_fit L (self_model self) (transform L self bal_graphs) bal_targets\<rparr>, g'))"
    by (simp add: fit_def split: sum.splits)
next
  assume "self_balance self \<and> \<not> randomize"
  then show "fit L slot g self graphs targets randomize
        = (case subsample slot g graphs targets (self_subsample_size self) of
             Inl e \<Rightarrow> Inl e
           | Inr ((samp_graphs, samp_targets), g1) \<Rightarrow>
               (let boot = self\<lparr>self_model :=
                      sk_fit L (self_model self) (transform L self samp_graphs) samp_targets\<rparr>
                in case balance slot g1 graphs targets (Some (decision_function L boot))
                          (self_ratio self) of
                     Inl e \<Rightarrow> Inl e
                   | Inr ((bal_graphs, bal_targets), g2) \<Rightarrow>
                       Inr (boot\<lparr>self_model :=
                              sk_fit L (self_model boot) (transform L boot bal_graphs)
                                bal_targets\<rparr>, g2)))"
    by (simp add: fit_def Let_def transform_def split: sum.splits prod.splits)
next
  assume "value_of (fit L slot g self graphs targets randomize) = Inr trained"
  then show "trained\<lparr>self_model := self_model self\<rparr> = self"
    by (auto simp: fit_def Let_def split: if_splits sum.splits prod.splits)
qed

theorem fit_pipeline_witness:
  "self_balance (EdenEstimator toy_libs 1 1 (- 1) True True 5 (PyInt 1))
   \<and> value_of (fit toy_libs nat rng1 (EdenEstimator toy_libs 1 1 (- 1) True True 5 (PyInt 1))
                 [10, 11, 12, 13, 14, 15] [1, 1, 1, 1, 0, 0] False)
       = Inr ((EdenEstimator toy_libs 1 1 (- 1) True True 5 (PyInt 1))\<lparr>self_model := Some 4\<rparr>)
   \<and> ((EdenEstimator toy_libs 1 1 (- 1) True True 5 (PyInt 1))\<lparr>self_model := Some 4\<rparr>)
         \<lparr>self_model := self_model (EdenEstimator toy_libs 1 1 (- 1) True True 5 (PyInt 1))\<rparr>
       = EdenEstimator toy_libs 1 1 (- 1) True True 5 (PyInt 1)
   \<and> value_of (fit toy_libs nat rng1 (EdenEstimator toy_libs 1 1 (- 1) True True 5 (PyInt 1))
                 [10, 11, 12, 13, 14, 15] [1, 1, 1, 1, 0, 0] True)
       = Inr ((EdenEstimator toy_libs 1 1 (- 1) True True 5 (PyInt 1))\<lparr>self_model := Some 3\<rparr>)
   \<and> \<not> self_balance (EdenEstimator toy_libs 1 1 (- 1) True False 5 (PyInt 1))
   \<and> fit toy_libs nat rng1 (EdenEstimator toy_libs 1 1 (- 1) True False 5 (PyInt 1))
         [10, 11, 12, 13, 14, 15] [1, 1, 1, 1, 0, 0] True
       = Inr ((EdenEstimator toy_libs 1 1 (- 1) True False 5 (PyInt 1))\<lparr>self_model := Some 3\<rparr>, rng1)"
proof -
  let ?e = "EdenEstimator toy_libs 1 1 (- 1) True True 5 (PyInt 1)"
  let ?u = "EdenEstimator toy_libs 1 1 (- 1) True False 5 (PyInt 1)"
  have b: "self_balance ?e" "\<not> self_balance ?u" by (simp_all add: EdenEstimator_def)
  have r: "value_of (fit toy_libs nat rng1 ?e [10, 11, 12, 13, 14, 15] [1, 1, 1, 1, 0, 0] False)
       = Inr (?e\<lparr>self_model := Some 4\<rparr>)"
    by (simp add: sampler_eval search_eval toy_libs_def rng1_def card_insert_if)
  note p = fit_pipeline [of ?e toy_libs nat rng1 "[10, 11, 12, 13, 14, 15]" "[1, 1, 1, 1, 0, 0]"
      False "?e\<lparr>self_model := Some 4\<rparr>"]
  from p r have k: "(?e\<lparr>self_model := Some 4\<rparr>)\<lparr>self_model := self_model ?e\<rparr> = ?e" by blast
  note q = fit_pipeline [of ?u toy_libs nat rng1 "[10, 11, 12, 13, 14, 15]" "[1, 1, 1, 1, 0, 0]"
      True "?u"]
  from q b(2) have "fit toy_libs nat rng1 ?u [10, 11, 12, 13, 14, 15] [1, 1, 1, 1, 0, 0] True
       = Inr (?u\<lparr>self_model := sk_fit toy_libs (self_model ?u)
                  (transform toy_libs ?u [10, 11, 12, 13, 14, 15]) [1, 1, 1, 1, 0, 0]\<rparr>, rng1)"
    by blast
  then have u: "fit toy_libs nat rng1 ?u [10, 11, 12, 13, 14, 15] [1, 1, 1, 1, 0, 0] True
       = Inr (?u\<lparr>self_model := Some 3\<rparr>, rng1)"
    by (simp add: toy_libs_def transform_def EdenEstimator_def)
  note p' = fit_pipeline [of ?e toy_libs nat rng1 "[10, 11, 12, 13, 14, 15]" "[1, 1, 1, 1, 0, 0]"
      True "?e"]
  from p' b(1) have "fit toy_libs nat rng1 ?e [10, 11, 12, 13, 14, 15] [1, 1, 1, 1, 0, 0] True
       = (case balance nat rng1 [10, 11, 12, 13, 14, 15] [1, 1, 1, 1, 0, 0] None (self_ratio ?e) of
            Inl e \<Rightarrow> Inl e
          | Inr ((bal_graphs, bal_targets), g') \<Rightarrow>
              Inr (?e\<lparr>self_model :=
                     sk_fit toy_libs (self_model ?e) (transform toy_libs ?e bal_graphs)
                       bal_targets\<rparr>, g'))"
    by blast
  then have m: "value_of (fit toy_libs nat rng1 ?e [10, 11, 12, 13, 14, 15] [1, 1, 1, 1, 0, 0] True)
       = Inr (?e\<lparr>self_model := Some 3\<rparr>)"
    by (simp add: sampler_eval toy_libs_def transform_def EdenEstimator_def rng1_def)
  from b r k m u show ?thesis by blast
qed

subsection \<open>cross_val_score\<close>

text \<open>
  Claim C7: \<open>cross_val_score\<close> vectorises the whole dataset with the estimator's
  hyperparameters, returns the scores of the cross-validation of the classifier on it,
  and leaves the estimator as it was: \<open>r\<close>, \<open>d\<close>, \<open>n_jobs\<close>, \<open>discrete\<close>, \<open>balance\<close>,
  \<open>subsample_size\<close>, \<open>ratio\<close> and the classifier are unchanged.
\<close>

theorem cross_val_score_keeps_estimator:
  "fst (cross_val_score L self graphs target scoring cv)
     = sk_cross_val_score L (self_model self)
         (vectorize L graphs (self_r self) (self_d self) (self_discrete self) (self_n_jobs self))
         target cv scoring (self_n_jobs self)
   \<and> snd (cross_val_score L self graphs target scoring cv) = self
   \<and> self_r (snd (cross_val_score L self graphs target scoring cv)) = self_r self
   \<and> self_d (snd (cross_val_score L self graphs target scoring cv)) = self_d self
   \<and> self_n_jobs (snd (cross_val_score L self graphs target scoring cv)) = self_n_jobs self
   \<and> self_discrete (snd (cross_val_score L self graphs target scoring cv)) = self_discrete self
   \<and> self_balance (snd (cross_val_score L self graphs target scoring cv)) = self_balance self
   \<and> self_subsample_size (snd (cross_val_score L self graphs target scoring cv))
       = self_subsample_size self
   \<and> self_ratio (snd (cross_val_score L self graphs target scoring cv)) = self_ratio self
   \<and> self_model (snd (cross_val_score L self graphs target scoring cv)) = self_model self"
  by (simp add: cross_val_score_def transform_def)

theorem cross_val_score_keeps_estimator_witness:
  "fst (cross_val_score toy_libs (EdenEstimator toy_libs 2 1 1 True False 200 (PyInt 2))
          [10, 11, 12, 13] [1, 1, 0, 0] ''roc_auc'' 5) = [2, 2, 2, 2, 2]
   \<and> snd (cross_val_score toy_libs (EdenEstimator toy_libs 2 1 1 True False 200 (PyInt 2))
          [10, 11, 12, 13] [1, 1, 0, 0] ''roc_auc'' 5)
       = EdenEstimator toy_libs 2 1 1 True False 200 (PyInt 2)"
  using cross_val_score_keeps_estimator [of toy_libs "EdenEstimator toy_libs 2 1 1 True False 200 (PyInt 2)"
      "[10, 11, 12, 13]" "[1, 1, 0, 0]" "''roc_auc''" 5]
  by (simp add: toy_libs_def EdenEstimator_def eval_nat_numeral)

end
